theory Spec2Isabelle
  imports Main
begin

text \<open>
  A model of the tabbable-combobox components: the state, the event handlers and the
  rendered attributes of Combobox1 (focus through a tree walker) and Combobox3 (virtual
  focus through \<^verbatim>\<open>aria-activedescendant\<close>), the focus utilities, the provider of approach 1
  and the focus hook of approach 2, each definition following its source function; and
  the properties proved of them.
\<close>

section \<open>Data model (types/combobox.ts, utils/keyboard.ts)\<close>

text \<open>
  A string of the host language is the sequence of its UTF-16 code units. \<open>js\<close> reads a
  literal of Basic Latin characters as such a string.
\<close>

type_synonym jsstring = "nat list"

definition js :: "string \<Rightarrow> jsstring" where
  "js s = map of_char s"

text \<open>
  \<^verbatim>\<open>interface ComboboxOption { id: string; label: string; value: string }\<close>.
  The field names \<open>id\<close> and \<open>value\<close> clash with HOL names and carry a suffix.
\<close>

record ComboboxOption =
  id_of :: jsstring
  label :: jsstring
  value_of :: jsstring

text \<open>
  \<^verbatim>\<open>interface ComboboxProps\<close>: seven properties, all but \<open>options\<close> optional. An absent
  optional string is \<open>None\<close>; an absent \<open>disabled\<close> is falsy, hence \<open>False\<close>. A callback
  property is modelled by whether the caller supplied it; its invocations are recorded in
  the effect trace of the handler that makes them.
\<close>

record ComboboxProps =
  options :: "ComboboxOption list"
  value_prop :: "jsstring option"
  placeholder :: "jsstring option"
  onSelectionChange :: bool
  onInputChange :: bool
  className :: "jsstring option"
  disabled :: bool

text \<open>The \<^verbatim>\<open>useState\<close> cells and the \<^verbatim>\<open>isTogglingRef\<close> ref of one widget instance.\<close>

record ComboboxState =
  isOpen :: bool
  inputValue :: jsstring
  highlightedIndex :: int
  isTogglingRef :: bool

text \<open>The part of a DOM keyboard event the handlers read.\<close>

record KeyboardEvent =
  key :: string
  shiftKey :: bool

text \<open>
  What a handler does besides updating state: the caller's callbacks it invokes, and the
  DOM calls \<^verbatim>\<open>e.preventDefault()\<close> and \<^verbatim>\<open>element.focus()\<close> (the element by its reference).
\<close>

datatype effect =
    CallOnInputChange jsstring
  | CallOnSelectionChange ComboboxOption
  | PreventDefault
  | Focus nat

definition ARROW_UP :: string where "ARROW_UP = ''ArrowUp''"
definition ARROW_DOWN :: string where "ARROW_DOWN = ''ArrowDown''"
definition ENTER :: string where "ENTER = ''Enter''"
definition ESCAPE :: string where "ESCAPE = ''Escape''"
definition TAB :: string where "TAB = ''Tab''"
definition SPACE :: string where "SPACE = '' ''"

definition isNavigationKey :: "string \<Rightarrow> bool" where
  "isNavigationKey k = (k \<in> set [ARROW_UP, ARROW_DOWN, ENTER, ESCAPE, TAB, SPACE])"

definition shouldPreventDefault :: "string \<Rightarrow> bool" where
  "shouldPreventDefault k = (k \<in> set [ARROW_UP, ARROW_DOWN, ENTER, ESCAPE])"

section \<open>String primitives of the host language\<close>

text \<open>
  \<^verbatim>\<open>String.prototype.toLowerCase\<close> is the host's: it maps a string by the case mappings of the
  Unicode character database, some of which depend on the neighbouring characters or
  change the length. The definitions below that call it take it as their first argument,
  \<open>toLowerCase\<close>, and the properties hold for whatever function it is.

  \<^verbatim>\<open>String.prototype.includes\<close>: a scan over the start positions of the receiver, testing
  at each whether the search string begins there (\<open>includes\<close> is a reserved word here, hence
  the suffix).
\<close>

definition startsWith :: "jsstring \<Rightarrow> jsstring \<Rightarrow> bool" where
  "startsWith s t = (take (length t) s = t)"

fun includes_str :: "jsstring \<Rightarrow> jsstring \<Rightarrow> bool" where
  "includes_str [] t = (t = [])"
| "includes_str (c # cs) t = (startsWith (c # cs) t \<or> includes_str cs t)"

text \<open>
  Array indexing \<^verbatim>\<open>xs[i]\<close> with a number: \<^verbatim>\<open>undefined\<close> outside \<open>0 \<le> i < length\<close>.
\<close>

definition at_index :: "'a list \<Rightarrow> int \<Rightarrow> 'a option" where
  "at_index xs i = (if 0 \<le> i \<and> i < int (length xs) then Some (xs ! nat i) else None)"

section \<open>Approach 3: Combobox3.tsx\<close>

definition filteredOptions3 ::
  "(jsstring \<Rightarrow> jsstring) \<Rightarrow> ComboboxProps \<Rightarrow>
   ComboboxState \<Rightarrow> ComboboxOption list" where
  "filteredOptions3 toLowerCase p s =
     filter (\<lambda>option. includes_str (toLowerCase (label option)) (toLowerCase (inputValue s)))
       (options p)"

text \<open>
  \<^verbatim>\<open>activeDescendantId\<close>: a string is truthy when it is not empty, an object always.
\<close>

definition activeDescendantId ::
  "(jsstring \<Rightarrow> jsstring) \<Rightarrow> ComboboxProps \<Rightarrow>
   ComboboxState \<Rightarrow> jsstring option" where
  "activeDescendantId toLowerCase p s =
     (let fo = filteredOptions3 toLowerCase p s in
      if length fo > 0 \<and> highlightedIndex s \<ge> 0 then
        (case at_index fo (highlightedIndex s) of
           Some opt \<Rightarrow> Some (js ''option-'' @ id_of opt)
         | None \<Rightarrow> None)
      else None)"

text \<open>The \<^verbatim>\<open>aria-activedescendant\<close> attribute of the input; \<open>None\<close> when it is not rendered.\<close>

definition aria_activedescendant ::
  "(jsstring \<Rightarrow> jsstring) \<Rightarrow> ComboboxProps \<Rightarrow>
   ComboboxState \<Rightarrow> jsstring option" where
  "aria_activedescendant toLowerCase p s =
     (case activeDescendantId toLowerCase p s of
        Some a \<Rightarrow> if isOpen s \<and> a \<noteq> [] then Some a else None
      | None \<Rightarrow> None)"

definition handleInputChange3 ::
  "ComboboxProps \<Rightarrow> ComboboxState \<Rightarrow> jsstring \<Rightarrow> ComboboxState \<times> effect list" where
  "handleInputChange3 p s v =
     (if disabled p then (s, [])
      else
        let s1 = s\<lparr>inputValue := v\<rparr>;
            s2 = (if \<not> isTogglingRef s1 then s1\<lparr>isOpen := True, highlightedIndex := 0\<rparr> else s1)
        in (s2, if onInputChange p then [CallOnInputChange v] else []))"

definition handleOptionSelect3 ::
  "ComboboxProps \<Rightarrow> ComboboxState \<Rightarrow> ComboboxOption \<Rightarrow> ComboboxState \<times> effect list" where
  "handleOptionSelect3 p s option =
     (s\<lparr>inputValue := label option, isOpen := False, highlightedIndex := 0\<rparr>,
      if onSelectionChange p then [CallOnSelectionChange option] else [])"

definition handleKeyDown3 ::
  "(jsstring \<Rightarrow> jsstring) \<Rightarrow> ComboboxProps \<Rightarrow> ComboboxState \<Rightarrow> KeyboardEvent \<Rightarrow> ComboboxState \<times> effect list" where
  "handleKeyDown3 toLowerCase p s e =
     (if disabled p then (s, [])
      else
        let pd = (if shouldPreventDefault (key e) then [PreventDefault] else []);
            fo = filteredOptions3 toLowerCase p s;
            prev = highlightedIndex s
        in
        if key e = ARROW_DOWN then
          (if \<not> isOpen s then (s\<lparr>isOpen := True\<rparr>, pd)
           else (s\<lparr>highlightedIndex := (if prev < int (length fo) - 1 then prev + 1 else 0)\<rparr>, pd))
        else if key e = ARROW_UP then
          (if isOpen s
           then (s\<lparr>highlightedIndex := (if prev > 0 then prev - 1 else int (length fo) - 1)\<rparr>, pd)
           else (s, pd))
        else if key e = ENTER then
          (case (if isOpen s then at_index fo (highlightedIndex s) else None) of
             Some opt \<Rightarrow> (let (s', eff) = handleOptionSelect3 p s opt in (s', pd @ eff))
           | None \<Rightarrow> (s, pd))
        else if key e = ESCAPE then
          (s\<lparr>isOpen := False, highlightedIndex := 0\<rparr>, pd)
        else if key e = TAB then
          ((if isOpen s then s\<lparr>isOpen := False, highlightedIndex := 0\<rparr> else s), pd)
        else (s, pd))"

text \<open>
  \<^verbatim>\<open>handleToggle\<close> sets the ref, flips \<open>isOpen\<close> and resets the index in both branches of
  the updater; the ref is cleared by the microtask it queues, which runs before the next
  event is dispatched.
\<close>

definition handleToggle3 ::
  "ComboboxProps \<Rightarrow> ComboboxState \<Rightarrow> ComboboxState \<times> effect list" where
  "handleToggle3 p s =
     (if disabled p then (s, [])
      else (s\<lparr>isTogglingRef := True, isOpen := \<not> isOpen s, highlightedIndex := 0\<rparr>, []))"

definition toggleMicrotask :: "ComboboxState \<Rightarrow> ComboboxState" where
  "toggleMicrotask s = s\<lparr>isTogglingRef := False\<rparr>"

text \<open>The effect on \<^verbatim>\<open>[value]\<close>: a defined \<open>value\<close> property overwrites the input text.\<close>

definition syncValue ::
  "ComboboxProps \<Rightarrow> ComboboxState \<Rightarrow> ComboboxState" where
  "syncValue p s = (case value_prop p of Some v \<Rightarrow> s\<lparr>inputValue := v\<rparr> | None \<Rightarrow> s)"

text \<open>
  \<^verbatim>\<open>handleClickOutside\<close>: \<open>inside\<close> says whether the widget's root contains the target.
\<close>

definition handleClickOutside ::
  "ComboboxState \<Rightarrow> bool \<Rightarrow> ComboboxState" where
  "handleClickOutside s inside = (if isOpen s \<and> \<not> inside then s\<lparr>isOpen := False\<rparr> else s)"

text \<open>The state after mounting: the \<^verbatim>\<open>useState\<close> initial values (\<^verbatim>\<open>value || ''\<close>).\<close>

definition initialState :: "ComboboxProps \<Rightarrow> ComboboxState" where
  "initialState p =
     \<lparr>isOpen = False,
      inputValue = (case value_prop p of Some v \<Rightarrow> v | None \<Rightarrow> []),
      highlightedIndex = 0,
      isTogglingRef = False\<rparr>"

section \<open>The document (the browser's DOM, as far as the focus utilities read it)\<close>

text \<open>
  An element carries a reference (its identity: \<^verbatim>\<open>===\<close> on elements compares references,
  and the elements of one document have pairwise distinct references), its namespace (an
  element is an \<^verbatim>\<open>HTMLElement\<close> when it is in the HTML namespace), a lower-case tag name, its
  attributes and its children in document order. The document is the \<^verbatim>\<open>document.body\<close>
  element; the functions below are handed elements of the document.
\<close>

datatype namespace = HTML | SVG

datatype element =
  Element (eref: nat) (namespace: namespace) (tagName: string)
    (attributes: "(string \<times> string) list") (children: "element list")

definition hasAttribute :: "element \<Rightarrow> string \<Rightarrow> bool" where
  "hasAttribute e a = (map_of (attributes e) a \<noteq> None)"

definition getAttribute :: "element \<Rightarrow> string \<Rightarrow> string option" where
  "getAttribute e a = map_of (attributes e) a"

text \<open>An element followed by its descendants, in document order.\<close>

fun preorder :: "element \<Rightarrow> element list" where
  "preorder (Element r ns t a cs) = Element r ns t a cs # concat (map preorder cs)"

definition descendants :: "element \<Rightarrow> element list" where
  "descendants e = concat (map preorder (children e))"

text \<open>
  The simple selectors that \<^verbatim>\<open>TABBABLE_SELECTOR\<close> is made of; the comma of a selector list
  is a disjunction.
\<close>

datatype selector =
    TagNotAttr string string   \<comment> \<open>\<^verbatim>\<open>tag:not([attr])\<close>\<close>
  | TagAttr string string      \<comment> \<open>\<^verbatim>\<open>tag[attr]\<close>\<close>
  | AttrNotValue string string \<comment> \<open>\<^verbatim>\<open>[attr]:not([attr="v"])\<close>\<close>
  | AttrValue string string    \<comment> \<open>\<^verbatim>\<open>[attr="v"]\<close>\<close>

fun matches_simple :: "element \<Rightarrow> selector \<Rightarrow> bool" where
  "matches_simple e (TagNotAttr t a) = (tagName e = t \<and> \<not> hasAttribute e a)"
| "matches_simple e (TagAttr t a) = (tagName e = t \<and> hasAttribute e a)"
| "matches_simple e (AttrNotValue a v) = (hasAttribute e a \<and> getAttribute e a \<noteq> Some v)"
| "matches_simple e (AttrValue a v) = (getAttribute e a = Some v)"

definition matches :: "element \<Rightarrow> selector list \<Rightarrow> bool" where
  "matches e sel = list_ex (matches_simple e) sel"

definition querySelectorAll ::
  "element \<Rightarrow> selector list \<Rightarrow> element list" where
  "querySelectorAll container sel = filter (\<lambda>e. matches e sel) (descendants container)"

text \<open>
  \<^verbatim>\<open>element.closest('form')\<close>: the innermost element of the document that is a form and
  contains the referenced element, the element itself included. The elements containing
  a given one come outermost first in document order.
\<close>

definition closest_form :: "element \<Rightarrow> nat \<Rightarrow> element option" where
  "closest_form doc r =
     (case rev (filter (\<lambda>e. tagName e = ''form'' \<and> r \<in> set (map eref (preorder e)))
                 (preorder doc)) of
        [] \<Rightarrow> None
      | f # _ \<Rightarrow> Some f)"

section \<open>utils/focus.ts\<close>

definition TABBABLE_SELECTOR :: "selector list" where
  "TABBABLE_SELECTOR =
     [TagNotAttr ''button'' ''disabled'',
      TagNotAttr ''input'' ''disabled'',
      TagNotAttr ''select'' ''disabled'',
      TagNotAttr ''textarea'' ''disabled'',
      TagAttr ''a'' ''href'',
      AttrNotValue ''tabindex'' ''-1'',
      AttrValue ''contenteditable'' ''true'']"

definition isTabbable :: "element \<Rightarrow> bool" where
  "isTabbable e =
     (if hasAttribute e ''disabled'' then False
      else if getAttribute e ''tabindex'' = Some ''-1'' then False
      else matches e TABBABLE_SELECTOR)"

text \<open>The result is an array of element references.\<close>

definition getTabbableElements :: "element \<Rightarrow> nat list" where
  "getTabbableElements container =
     map eref (filter isTabbable (querySelectorAll container TABBABLE_SELECTOR))"

definition getClosestForm :: "element \<Rightarrow> nat \<Rightarrow> element option" where
  "getClosestForm doc r = closest_form doc r"

text \<open>
  The \<^verbatim>\<open>TreeWalker\<close> that \<^verbatim>\<open>createTreeWalker\<close> makes shows elements only, and its filter accepts
  the tabbable ones and skips (never rejects) the others. The walker is the document in
  document order, the position of its root and the position of its current node; a
  reference to no element of the document has no position.

  \<^verbatim>\<open>nextNode\<close> walks on from the current node in document order and returns the first
  accepted element. It gives up with \<^verbatim>\<open>null\<close> where the walk would leave the root's subtree,
  and at the end of the document. From a current node that stands after the root's
  subtree the walk never meets the root, so it goes on to the end of the document; from
  one that stands before the root it can enter the subtree, the root first.

  \<^verbatim>\<open>previousNode\<close> walks back from the current node in reverse document order. It gives up
  when it stands on the root: so from inside the subtree the root is the last element it
  can return, from before the root it runs to the start of the document, and from after
  the subtree it runs back to the root. A root it reaches as a previous sibling's last leaf
  it passes without the test; that happens when the root has no child and is not a first
  child, and then the walk runs to the start of the document.

  On success the walker moves to the element it returns, otherwise it stays.
\<close>

record TreeWalker =
  walk_order :: "element list"
  root_position :: "nat option"
  currentNode :: "nat option"

fun position :: "nat \<Rightarrow> element list \<Rightarrow> nat option" where
  "position r [] = None"
| "position r (e # es) = (if eref e = r then Some 0 else map_option Suc (position r es))"

definition createTreeWalker :: "element \<Rightarrow> element \<Rightarrow> TreeWalker" where
  "createTreeWalker doc root =
     \<lparr>walk_order = preorder doc,
      root_position = position (eref root) (preorder doc),
      currentNode = position (eref root) (preorder doc)\<rparr>"

definition set_currentNode :: "TreeWalker \<Rightarrow> nat \<Rightarrow> TreeWalker" where
  "set_currentNode w r = w\<lparr>currentNode := position r (walk_order w)\<rparr>"

definition set_currentNode_root :: "TreeWalker \<Rightarrow> TreeWalker" where
  "set_currentNode_root w = w\<lparr>currentNode := root_position w\<rparr>"

text \<open>Where a walk forward from position \<open>i\<close> ends, and where a walk back from it ends.\<close>

definition walk_stop :: "TreeWalker \<Rightarrow> nat \<Rightarrow> nat" where
  "walk_stop w i =
     (case root_position w of
        None \<Rightarrow> length (walk_order w)
      | Some a \<Rightarrow>
          (let b = a + length (preorder (walk_order w ! a))
           in if i < b then min b (length (walk_order w)) else length (walk_order w)))"

definition walk_start :: "TreeWalker \<Rightarrow> nat \<Rightarrow> nat" where
  "walk_start w i =
     (case root_position w of
        None \<Rightarrow> 0
      | Some a \<Rightarrow>
          if i < a then 0
          else if i < a + length (preorder (walk_order w ! a)) then a
          else if children (walk_order w ! a) = [] \<and> 0 < a
                  \<and> children (walk_order w ! (a - 1)) = [] then 0
          else a)"

definition nextNode :: "TreeWalker \<Rightarrow> element option \<times> TreeWalker" where
  "nextNode w =
     (case currentNode w of
        None \<Rightarrow> (None, w)
      | Some i \<Rightarrow>
          (case find (\<lambda>j. isTabbable (walk_order w ! j)) [Suc i ..< walk_stop w i] of
             None \<Rightarrow> (None, w)
           | Some j \<Rightarrow> (Some (walk_order w ! j), w\<lparr>currentNode := Some j\<rparr>)))"

definition previousNode :: "TreeWalker \<Rightarrow> element option \<times> TreeWalker" where
  "previousNode w =
     (case currentNode w of
        None \<Rightarrow> (None, w)
      | Some i \<Rightarrow>
          (case find (\<lambda>j. isTabbable (walk_order w ! j))
                  (rev [walk_start w i ..< min i (length (walk_order w))]) of
             None \<Rightarrow> (None, w)
           | Some j \<Rightarrow> (Some (walk_order w ! j), w\<lparr>currentNode := Some j\<rparr>)))"

section \<open>Approach 1: context.ts, useFocusable.ts, FocusableContext.tsx\<close>


text \<open>
  What the provider's callbacks close over: the \<^verbatim>\<open>rootElement\<close> property (the element as it
  stands in the document) and \<^verbatim>\<open>containerRef.current\<close>. The context value is the provider
  that made it; \<^verbatim>\<open>useContext\<close> yields \<^verbatim>\<open>null\<close> (\<open>None\<close>) when no provider encloses the caller.
\<close>

record FocusableProvider =
  rootElement :: "element option"
  containerRef :: "nat option"


definition getRoot :: "element \<Rightarrow> FocusableProvider \<Rightarrow> element" where
  "getRoot doc fp =
     (case rootElement fp of
        Some r \<Rightarrow> r
      | None \<Rightarrow>
          (case containerRef fp of
             Some container \<Rightarrow>
               (case closest_form doc container of Some form \<Rightarrow> form | None \<Rightarrow> doc)
           | None \<Rightarrow> doc))"

definition walk_measure :: "TreeWalker \<times> 'a \<times> element option \<Rightarrow> nat" where
  "walk_measure x =
     (case x of (w, _, node) \<Rightarrow>
        (case node of
           None \<Rightarrow> 0
         | Some _ \<Rightarrow>
             Suc (length (walk_order w) - (case currentNode w of None \<Rightarrow> 0 | Some i \<Rightarrow> i))))"


text \<open>\<^verbatim>\<open>while (node) { lastNode = node; node = walker.nextNode(); }\<close>\<close>

function last_loop ::
  "TreeWalker \<Rightarrow> element option \<Rightarrow> element option \<Rightarrow> element option" where
  "last_loop w lastNode node =
     (case node of
        None \<Rightarrow> lastNode
      | Some n \<Rightarrow> (case nextNode w of (node', w') \<Rightarrow> last_loop w' (Some n) node'))"
  by pat_completeness auto

lemma walk_measure_decreases:
  assumes "nextNode w = (node', w')"
  shows "walk_measure (w', l', node') < walk_measure (w, l, Some n)"
proof (cases node')
  case None
  then show ?thesis by (simp add: walk_measure_def)
next
  case (Some m)
  with assms obtain i j where "currentNode w = Some i" "currentNode w' = Some j"
    "walk_order w' = walk_order w"
    "find (\<lambda>j. isTabbable (walk_order w ! j)) [Suc i ..< walk_stop w i] = Some j"
    unfolding nextNode_def by (auto split: option.splits)
  moreover have "walk_stop w i \<le> length (walk_order w)"
    by (simp add: walk_stop_def Let_def split: option.splits)
  ultimately have "i < j \<and> j < length (walk_order w)"
    by (auto simp: find_Some_iff)
  moreover note \<open>currentNode w = Some i\<close> \<open>currentNode w' = Some j\<close>
    \<open>walk_order w' = walk_order w\<close>
  ultimately show ?thesis using Some by (simp add: walk_measure_def) arith
qed


termination last_loop
  by (relation "measure walk_measure") (auto intro: walk_measure_decreases)



definition getNextFocusable ::
  "element \<Rightarrow> FocusableProvider \<Rightarrow> nat \<Rightarrow> element option" where
  "getNextFocusable doc fp current =
     (let root = getRoot doc fp;
          walker = createTreeWalker doc root;
          walker = set_currentNode walker current;
          (next, walker) = nextNode walker
      in case next of
           Some n \<Rightarrow> Some n
         | None \<Rightarrow> fst (nextNode (set_currentNode_root walker)))"

definition getPreviousFocusable ::
  "element \<Rightarrow> FocusableProvider \<Rightarrow> nat \<Rightarrow> element option" where
  "getPreviousFocusable doc fp current =
     (let root = getRoot doc fp;
          walker = createTreeWalker doc root;
          walker = set_currentNode walker current;
          (previous, walker) = previousNode walker
      in case previous of
           Some n \<Rightarrow> Some n
         | None \<Rightarrow>
             (let walker = set_currentNode_root walker;
                  (node, walker) = nextNode walker
              in last_loop walker None node))"

section \<open>Approach 2: the focus-management hook\<close>

text \<open>\<^verbatim>\<open>Array.prototype.findIndex\<close>: the first index whose element passes, or \<open>-1\<close>.\<close>

fun findIndex :: "('a \<Rightarrow> bool) \<Rightarrow> 'a list \<Rightarrow> int" where
  "findIndex P [] = -1"
| "findIndex P (x # xs) =
     (if P x then 0 else (let i = findIndex P xs in if i = -1 then -1 else i + 1))"

text \<open>The two refs of one hook instance; they persist from call to call.\<close>

record FocusManagementRefs =
  lastFormRef :: "nat option"
  lastTabbablesRef :: "nat list"

definition initialRefs :: FocusManagementRefs where
  "initialRefs = \<lparr>lastFormRef = None, lastTabbablesRef = []\<rparr>"

text \<open>
  Each function takes the document as it stands at the time of the call and the refs, and
  returns its result with the refs as it leaves them.
\<close>

definition getAllTabbables ::
  "element \<Rightarrow> FocusManagementRefs \<Rightarrow> nat \<Rightarrow> nat list \<times> FocusManagementRefs" where
  "getAllTabbables doc refs current =
     (let form = getClosestForm doc current;
          root = (case form of Some f \<Rightarrow> f | None \<Rightarrow> doc)
      in
      if map_option eref form = lastFormRef refs \<and> length (lastTabbablesRef refs) > 0
      then (lastTabbablesRef refs, refs)
      else
        (let tabbables = getTabbableElements root
         in (tabbables, \<lparr>lastFormRef = map_option eref form, lastTabbablesRef = tabbables\<rparr>)))"

definition getNextTabbable ::
  "element \<Rightarrow> FocusManagementRefs \<Rightarrow> nat \<Rightarrow> nat option \<times> FocusManagementRefs" where
  "getNextTabbable doc refs current =
     (let (tabbables, refs') = getAllTabbables doc refs current;
          currentIndex = findIndex (\<lambda>el. el = current) tabbables
      in
      if currentIndex = -1 then (None, refs')
      else
        (let nextIndex = currentIndex + 1
         in ((if nextIndex < int (length tabbables) then at_index tabbables nextIndex else None),
             refs')))"

definition getPreviousTabbable ::
  "element \<Rightarrow> FocusManagementRefs \<Rightarrow> nat \<Rightarrow> nat option \<times> FocusManagementRefs" where
  "getPreviousTabbable doc refs current =
     (let (tabbables, refs') = getAllTabbables doc refs current;
          currentIndex = findIndex (\<lambda>el. el = current) tabbables
      in
      if currentIndex = -1 then (None, refs')
      else
        (let prevIndex = currentIndex - 1
         in ((if prevIndex \<ge> 0 then at_index tabbables prevIndex else None), refs')))"

section \<open>Approach 1: Combobox1.tsx\<close>

text \<open>
  The toggle's microtask, the \<^verbatim>\<open>[value]\<close> effect, the click-outside listener and the initial
  state read in Combobox1.tsx as they do in Combobox3.tsx; \<open>toggleMicrotask\<close>, \<open>syncValue\<close>,
  \<open>handleClickOutside\<close> and \<open>initialState\<close> stand for both.
\<close>

definition filteredOptions1 ::
  "(jsstring \<Rightarrow> jsstring) \<Rightarrow> ComboboxProps \<Rightarrow>
   ComboboxState \<Rightarrow> ComboboxOption list" where
  "filteredOptions1 toLowerCase p s =
     filter (\<lambda>option. includes_str (toLowerCase (label option)) (toLowerCase (inputValue s)))
       (options p)"

definition handleInputChange1 ::
  "ComboboxProps \<Rightarrow> ComboboxState \<Rightarrow> jsstring \<Rightarrow> ComboboxState \<times> effect list" where
  "handleInputChange1 p s v =
     (if disabled p then (s, [])
      else
        let s1 = s\<lparr>inputValue := v\<rparr>;
            s2 = (if \<not> isTogglingRef s1 then s1\<lparr>isOpen := True, highlightedIndex := 0\<rparr> else s1)
        in (s2, if onInputChange p then [CallOnInputChange v] else []))"

definition handleOptionSelect1 ::
  "ComboboxProps \<Rightarrow> ComboboxState \<Rightarrow> ComboboxOption \<Rightarrow> ComboboxState \<times> effect list" where
  "handleOptionSelect1 p s option =
     (s\<lparr>inputValue := label option, isOpen := False, highlightedIndex := 0\<rparr>,
      if onSelectionChange p then [CallOnSelectionChange option] else [])"

text \<open>
  The Tab case reads the document through the provider's callbacks: \<open>doc\<close> and \<open>fp\<close> are
  what they see, \<open>inputRef\<close> is \<^verbatim>\<open>inputRef.current\<close>.
\<close>

definition handleKeyDown1 ::
  "(jsstring \<Rightarrow> jsstring) \<Rightarrow> element \<Rightarrow> FocusableProvider \<Rightarrow> nat option \<Rightarrow>
   ComboboxProps \<Rightarrow> ComboboxState \<Rightarrow> KeyboardEvent \<Rightarrow> ComboboxState \<times> effect list" where
  "handleKeyDown1 toLowerCase doc fp inputRef p s e =
     (if disabled p then (s, [])
      else
        let pd = (if shouldPreventDefault (key e) then [PreventDefault] else []);
            fo = filteredOptions1 toLowerCase p s;
            prev = highlightedIndex s
        in
        if key e = ARROW_DOWN then
          (if \<not> isOpen s then (s\<lparr>isOpen := True\<rparr>, pd)
           else (s\<lparr>highlightedIndex := (if prev < int (length fo) - 1 then prev + 1 else 0)\<rparr>, pd))
        else if key e = ARROW_UP then
          (if isOpen s
           then (s\<lparr>highlightedIndex := (if prev > 0 then prev - 1 else int (length fo) - 1)\<rparr>, pd)
           else (s, pd))
        else if key e = ENTER then
          (case (if isOpen s then at_index fo (highlightedIndex s) else None) of
             Some opt \<Rightarrow> (let (s', eff) = handleOptionSelect1 p s opt in (s', pd @ eff))
           | None \<Rightarrow> (s, pd))
        else if key e = ESCAPE then
          (s\<lparr>isOpen := False, highlightedIndex := 0\<rparr>, pd)
        else if key e = TAB then
          (let s' = (if isOpen s then s\<lparr>isOpen := False, highlightedIndex := 0\<rparr> else s)
           in case inputRef of
                None \<Rightarrow> (s', pd)
              | Some currentElement \<Rightarrow>
                  (case (if shiftKey e then getPreviousFocusable doc fp currentElement
                         else getNextFocusable doc fp currentElement) of
                     Some nextElement \<Rightarrow>
                       if namespace nextElement = HTML
                       then (s', pd @ [PreventDefault, Focus (eref nextElement)])
                       else (s', pd)
                   | None \<Rightarrow> (s', pd)))
        else (s, pd))"

definition handleToggle1 ::
  "ComboboxProps \<Rightarrow> ComboboxState \<Rightarrow> ComboboxState \<times> effect list" where
  "handleToggle1 p s =
     (if disabled p then (s, [])
      else (s\<lparr>isTogglingRef := True, isOpen := \<not> isOpen s, highlightedIndex := 0\<rparr>, []))"

section \<open>What is rendered\<close>

text \<open>
  The \<^verbatim>\<open>ComboboxPopup\<close> of each file renders one row per option it is given, in order,
  marking the row at the highlighted index (buttons in Combobox1.tsx, elements with the
  id \<^verbatim>\<open>option-\<close> and the option's id in Combobox3.tsx); with no option it renders the "No
  options available" notice instead. A view records which options the rows show and
  which row is marked. Each component renders its popup only while \<open>isOpen\<close>, and hands it
  the filtered list.
\<close>

datatype popup_view =
    NoOptionsAvailable
  | OptionRows "(ComboboxOption \<times> bool) list"

definition ComboboxPopup1 :: "ComboboxOption list \<Rightarrow> int \<Rightarrow> popup_view" where
  "ComboboxPopup1 opts hi =
     (if length opts = 0 then NoOptionsAvailable
      else OptionRows (map (\<lambda>(index, option). (option, int index = hi))
                         (zip [0 ..< length opts] opts)))"

definition ComboboxPopup3 :: "ComboboxOption list \<Rightarrow> int \<Rightarrow> popup_view" where
  "ComboboxPopup3 opts hi =
     (if length opts = 0 then NoOptionsAvailable
      else OptionRows (map (\<lambda>(index, option). (option, int index = hi))
                         (zip [0 ..< length opts] opts)))"

definition popup1 ::
  "(jsstring \<Rightarrow> jsstring) \<Rightarrow> ComboboxProps \<Rightarrow>
   ComboboxState \<Rightarrow> popup_view option" where
  "popup1 toLowerCase p s =
     (if isOpen s
      then Some (ComboboxPopup1 (filteredOptions1 toLowerCase p s) (highlightedIndex s))
      else None)"

definition popup3 ::
  "(jsstring \<Rightarrow> jsstring) \<Rightarrow> ComboboxProps \<Rightarrow>
   ComboboxState \<Rightarrow> popup_view option" where
  "popup3 toLowerCase p s =
     (if isOpen s
      then Some (ComboboxPopup3 (filteredOptions3 toLowerCase p s) (highlightedIndex s))
      else None)"


section \<open>Notions the properties are stated against\<close>

subsection \<open>Occurrence of a text in a label\<close>



subsection \<open>Runs of events\<close>

text \<open>A run of key presses, each handled in the state the previous one left.\<close>

fun pressKeys3 ::
  "(jsstring \<Rightarrow> jsstring) \<Rightarrow> ComboboxProps \<Rightarrow>
   ComboboxState \<Rightarrow> KeyboardEvent list \<Rightarrow> ComboboxState" where
  "pressKeys3 toLowerCase p s [] = s"
| "pressKeys3 toLowerCase p s (e # es) =
     pressKeys3 toLowerCase p (fst (handleKeyDown3 toLowerCase p s e)) es"

fun pressKeys1 ::
  "(jsstring \<Rightarrow> jsstring) \<Rightarrow> element \<Rightarrow> FocusableProvider \<Rightarrow> nat option \<Rightarrow>
   ComboboxProps \<Rightarrow> ComboboxState \<Rightarrow> KeyboardEvent list \<Rightarrow> ComboboxState" where
  "pressKeys1 toLowerCase doc fp inputRef p s [] = s"
| "pressKeys1 toLowerCase doc fp inputRef p s (e # es) =
     pressKeys1 toLowerCase doc fp inputRef p
       (fst (handleKeyDown1 toLowerCase doc fp inputRef p s e)) es"

text \<open>
  The events one instance of Combobox3 reacts to while its properties stay the same: a
  key press, typing into the input, a click on the input (the toggle, followed by the
  microtask that clears the ref before anything else is dispatched), a click on a row of
  the popup (there is a row to click only while the popup shows that option), and a
  mouse-down somewhere in the document.
\<close>

datatype event =
    KeyPress KeyboardEvent
  | Typing jsstring
  | InputClick
  | OptionClick ComboboxOption
  | MouseDown bool

fun step3 ::
  "(jsstring \<Rightarrow> jsstring) \<Rightarrow> ComboboxProps \<Rightarrow>
   ComboboxState \<Rightarrow> event \<Rightarrow> ComboboxState" where
  "step3 toLowerCase p s (KeyPress e) = fst (handleKeyDown3 toLowerCase p s e)"
| "step3 toLowerCase p s (Typing v) = fst (handleInputChange3 p s v)"
| "step3 toLowerCase p s InputClick =
     (if disabled p then s else toggleMicrotask (fst (handleToggle3 p s)))"
| "step3 toLowerCase p s (OptionClick option) =
     (if isOpen s \<and> option \<in> set (filteredOptions3 toLowerCase p s)
      then fst (handleOptionSelect3 p s option) else s)"
| "step3 toLowerCase p s (MouseDown inside) = handleClickOutside s inside"

text \<open>Mounting runs the \<^verbatim>\<open>[value]\<close> effect once on the initial state.\<close>

definition mount :: "ComboboxProps \<Rightarrow> ComboboxState" where
  "mount p = syncValue p (initialState p)"

inductive reachable3 ::
  "(jsstring \<Rightarrow> jsstring) \<Rightarrow> ComboboxProps \<Rightarrow> ComboboxState \<Rightarrow> bool"
  for toLowerCase p where
  mounted: "reachable3 toLowerCase p (mount p)"
| stepped: "reachable3 toLowerCase p s \<Longrightarrow> reachable3 toLowerCase p (step3 toLowerCase p s ev)"

text \<open>
  A render with new properties: the \<^verbatim>\<open>[value]\<close> effect runs again when \<open>value\<close> differs from the
  previous render's.
\<close>

definition propsChanged ::
  "ComboboxProps \<Rightarrow> ComboboxProps \<Rightarrow> ComboboxState \<Rightarrow>
   ComboboxState" where
  "propsChanged old new s = (if value_prop new \<noteq> value_prop old then syncValue new s else s)"

text \<open>
  The invariant of the transition system: the toggle ref is clear between events, and the
  highlighted index points into the filtered list whenever that list is not empty.
\<close>

definition index_valid ::
  "(jsstring \<Rightarrow> jsstring) \<Rightarrow> ComboboxProps \<Rightarrow>
   ComboboxState \<Rightarrow> bool" where
  "index_valid toLowerCase p s =
     (\<not> isTogglingRef s \<and>
      (filteredOptions3 toLowerCase p s \<noteq> [] \<longrightarrow>
         0 \<le> highlightedIndex s
         \<and> highlightedIndex s < int (length (filteredOptions3 toLowerCase p s))))"

subsection \<open>The hook's cache against the document\<close>

text \<open>
  The scope of an element: its closest form, or the body. The refs are up to date for a
  document when a list they would hand out is the document's own list for that scope.
\<close>

definition scope_of :: "element \<Rightarrow> nat \<Rightarrow> element" where
  "scope_of doc current = (case getClosestForm doc current of Some form \<Rightarrow> form | None \<Rightarrow> doc)"

definition tabbables_in_document_order :: "element \<Rightarrow> nat list" where
  "tabbables_in_document_order container = map eref (filter isTabbable (descendants container))"

definition up_to_date :: "element \<Rightarrow> FocusManagementRefs \<Rightarrow> bool" where
  "up_to_date doc refs =
     (\<forall>e \<in> set (preorder doc).
        map_option eref (getClosestForm doc (eref e)) = lastFormRef refs
          \<and> lastTabbablesRef refs \<noteq> []
        \<longrightarrow> lastTabbablesRef refs = tabbables_in_document_order (scope_of doc (eref e)))"

section \<open>Sample data\<close>

subsection \<open>Lower-casing of the sample texts\<close>

text \<open>
  \<^verbatim>\<open>String.prototype.toLowerCase\<close> on texts made of digits, spaces, hyphens and the letters
  A to Z and a to z, the Latin-1 letters U+00C0 to U+00FF and the Greek letters U+0391 to
  U+03A9 and U+03B1 to U+03C9: a capital letter becomes its small letter, 32 code units
  further on, and every other code unit stays. The capital sigma (931) is the one letter
  that depends on its place: right after a letter and not right before one it becomes the
  final small sigma (962), anywhere else the small sigma (963).
\<close>

definition is_cased :: "nat \<Rightarrow> bool" where
  "is_cased c \<longleftrightarrow>
     (65 \<le> c \<and> c \<le> 90) \<or> (97 \<le> c \<and> c \<le> 122)
     \<or> (192 \<le> c \<and> c \<le> 255 \<and> c \<noteq> 215 \<and> c \<noteq> 247)
     \<or> (913 \<le> c \<and> c \<le> 929) \<or> (931 \<le> c \<and> c \<le> 939)
     \<or> (945 \<le> c \<and> c \<le> 971)"

definition lower_unit :: "nat \<Rightarrow> nat" where
  "lower_unit c =
     (if (65 \<le> c \<and> c \<le> 90) \<or> (192 \<le> c \<and> c \<le> 222 \<and> c \<noteq> 215)
         \<or> (913 \<le> c \<and> c \<le> 929) \<or> (932 \<le> c \<and> c \<le> 939)
      then c + 32 else c)"

fun lower_units :: "bool \<Rightarrow> jsstring \<Rightarrow> jsstring" where
  "lower_units after_letter [] = []"
| "lower_units after_letter (c # cs) =
     (if c = 931
      then (if after_letter \<and> \<not> (case cs of [] \<Rightarrow> False | d # ds \<Rightarrow> is_cased d)
            then 962 else 963)
      else lower_unit c)
     # lower_units (is_cased c) cs"

definition sampleLowerCase :: "jsstring \<Rightarrow> jsstring" where
  "sampleLowerCase t = lower_units False t"

subsection \<open>The options and properties of the component tests\<close>

definition mockOptions :: "ComboboxOption list" where
  "mockOptions =
     [\<lparr>id_of = js ''1'', label = js ''Apple'', value_of = js ''apple''\<rparr>,
      \<lparr>id_of = js ''2'', label = js ''Banana'', value_of = js ''banana''\<rparr>,
      \<lparr>id_of = js ''3'', label = js ''Cherry'', value_of = js ''cherry''\<rparr>,
      \<lparr>id_of = js ''4'', label = js ''Date'', value_of = js ''date''\<rparr>]"

definition mockProps :: ComboboxProps where
  "mockProps =
     \<lparr>options = mockOptions, value_prop = None, placeholder = None,
      onSelectionChange = True, onInputChange = True, className = None, disabled = False\<rparr>"

definition keyDown :: "string \<Rightarrow> KeyboardEvent" where
  "keyDown k = \<lparr>key = k, shiftKey = False\<rparr>"

definition disabledProps :: ComboboxProps where
  "disabledProps = mockProps\<lparr>disabled := True\<rparr>"

text \<open>The properties of the component test that passes \<^verbatim>\<open>value="Cherry"\<close>.\<close>

definition cherryProps :: ComboboxProps where
  "cherryProps = mockProps\<lparr>value_prop := Some (js ''Cherry'')\<rparr>"




subsection \<open>States\<close>

text \<open>The popup open on all four options with the second one highlighted.\<close>

definition secondHighlighted :: ComboboxState where
  "secondHighlighted =
     \<lparr>isOpen = True, inputValue = [], highlightedIndex = 1, isTogglingRef = False\<rparr>"

text \<open>The state after pressing ArrowDown on a freshly mounted, enabled widget.\<close>

definition openedState :: ComboboxState where
  "openedState =
     fst (handleKeyDown3 sampleLowerCase mockProps (initialState mockProps)
            (keyDown ARROW_DOWN))"

text \<open>
  The last option highlighted by three ArrowDown presses, then the caller sets \<open>value\<close> to
  a text that only the first option matches.
\<close>

definition lastHighlighted :: ComboboxState where
  "lastHighlighted =
     pressKeys3 sampleLowerCase mockProps openedState
       [keyDown ARROW_DOWN, keyDown ARROW_DOWN, keyDown ARROW_DOWN]"

definition appProps :: ComboboxProps where
  "appProps = mockProps\<lparr>value_prop := Some (js ''app'')\<rparr>"

definition afterValueChange :: ComboboxState where
  "afterValueChange = propsChanged mockProps appProps lastHighlighted"



subsection \<open>Documents\<close>

text \<open>A document with nothing in it, and a provider that has not mounted its container.\<close>

definition emptyDoc :: element where
  "emptyDoc = Element 0 HTML ''body'' [] []"

definition unmountedProvider :: FocusableProvider where
  "unmountedProvider = \<lparr>rootElement = None, containerRef = None\<rparr>"

text \<open>
  A form holding an input, the provider's container with the widget's root and input
  inside, and a button; and the same form later, with that button disabled and another
  button added after it.
\<close>

definition formDoc :: element where
  "formDoc =
     Element 0 HTML ''body'' []
       [Element 1 HTML ''form'' []
          [Element 2 HTML ''input'' [] [],
           Element 3 HTML ''div'' []
             [Element 4 HTML ''div'' [(''class'', ''combobox'')] [Element 5 HTML ''input'' [] []]],
           Element 6 HTML ''button'' [] []]]"

definition formDocLater :: element where
  "formDocLater =
     Element 0 HTML ''body'' []
       [Element 1 HTML ''form'' []
          [Element 2 HTML ''input'' [] [],
           Element 3 HTML ''div'' []
             [Element 4 HTML ''div'' [(''class'', ''combobox'')] [Element 5 HTML ''input'' [] []]],
           Element 6 HTML ''button'' [(''disabled'', [])] [],
           Element 7 HTML ''button'' [] []]]"



definition drawingDoc :: element where
  "drawingDoc =
     Element 0 HTML ''body'' []
       [Element 1 HTML ''form'' []
          [Element 2 HTML ''input'' [] [],
           Element 3 SVG ''svg'' [(''tabindex'', ''0'')] []]]"

definition mountedProvider :: FocusableProvider where
  "mountedProvider = \<lparr>rootElement = None, containerRef = Some 3\<rparr>"

text \<open>The hook's refs after a first call in the form, made from the widget's input.\<close>

definition refsAfterFirstCall :: FocusManagementRefs where
  "refsAfterFirstCall = snd (getNextTabbable formDoc initialRefs 5)"


section \<open>Properties\<close>

subsection \<open>Filtering\<close>





lemma lower_units_without_sigma:
  "931 \<notin> set t \<Longrightarrow> lower_units after_letter t = map lower_unit t"
  by (induction t arbitrary: after_letter) simp_all






subsection \<open>The keys, one by one\<close>

lemma handleKeyDown3_escape:
  assumes "key e = ESCAPE"
  shows "handleKeyDown3 toLowerCase p s e =
     (if disabled p then (s, [])
      else (s\<lparr>isOpen := False, highlightedIndex := 0\<rparr>, [PreventDefault]))"
  by (simp add: handleKeyDown3_def assms shouldPreventDefault_def
      ESCAPE_def ARROW_DOWN_def ARROW_UP_def ENTER_def TAB_def)

lemma handleKeyDown3_enter:
  assumes "key e = ENTER"
  shows "handleKeyDown3 toLowerCase p s e =
     (if disabled p then (s, [])
      else case (if isOpen s then at_index (filteredOptions3 toLowerCase p s) (highlightedIndex s) else None) of
             Some opt \<Rightarrow>
               (s\<lparr>inputValue := label opt, isOpen := False, highlightedIndex := 0\<rparr>,
                PreventDefault # (if onSelectionChange p then [CallOnSelectionChange opt] else []))
           | None \<Rightarrow> (s, [PreventDefault]))"
  by (simp add: handleKeyDown3_def assms shouldPreventDefault_def handleOptionSelect3_def
      ESCAPE_def ARROW_DOWN_def ARROW_UP_def ENTER_def TAB_def split: option.splits)

lemma handleKeyDown3_arrow_down:
  assumes "key e = ARROW_DOWN"
  shows "handleKeyDown3 toLowerCase p s e =
     (if disabled p then (s, [])
      else if \<not> isOpen s then (s\<lparr>isOpen := True\<rparr>, [PreventDefault])
      else (s\<lparr>highlightedIndex :=
                (if highlightedIndex s < int (length (filteredOptions3 toLowerCase p s)) - 1
                 then highlightedIndex s + 1 else 0)\<rparr>, [PreventDefault]))"
  by (simp add: handleKeyDown3_def assms shouldPreventDefault_def
      ESCAPE_def ARROW_DOWN_def ARROW_UP_def ENTER_def TAB_def)

lemma handleKeyDown3_arrow_up:
  assumes "key e = ARROW_UP"
  shows "handleKeyDown3 toLowerCase p s e =
     (if disabled p then (s, [])
      else if isOpen s
      then (s\<lparr>highlightedIndex :=
                (if highlightedIndex s > 0
                 then highlightedIndex s - 1 else int (length (filteredOptions3 toLowerCase p s)) - 1)\<rparr>,
            [PreventDefault])
      else (s, [PreventDefault]))"
  by (simp add: handleKeyDown3_def assms shouldPreventDefault_def
      ESCAPE_def ARROW_DOWN_def ARROW_UP_def ENTER_def TAB_def)

lemma handleKeyDown3_tab:
  assumes "key e = TAB"
  shows "handleKeyDown3 toLowerCase p s e =
     (if disabled p then (s, [])
      else ((if isOpen s then s\<lparr>isOpen := False, highlightedIndex := 0\<rparr> else s), []))"
  by (simp add: handleKeyDown3_def assms shouldPreventDefault_def
      ESCAPE_def ARROW_DOWN_def ARROW_UP_def ENTER_def TAB_def)

lemma handleKeyDown3_other:
  assumes "key e \<notin> {ARROW_DOWN, ARROW_UP, ENTER, ESCAPE, TAB}"
  shows "handleKeyDown3 toLowerCase p s e = (s, [])"
  using assms by (simp add: handleKeyDown3_def shouldPreventDefault_def)

lemma key_not_tab:
  "key e = ESCAPE \<Longrightarrow> key e \<noteq> TAB"
  "key e = ENTER \<Longrightarrow> key e \<noteq> TAB"
  "key e = ARROW_DOWN \<Longrightarrow> key e \<noteq> TAB"
  "key e = ARROW_UP \<Longrightarrow> key e \<noteq> TAB"
  by (simp_all add: ESCAPE_def ARROW_DOWN_def ARROW_UP_def ENTER_def TAB_def)

lemma handleKeyDown1_tab:
  assumes "key e = TAB"
  shows "handleKeyDown1 toLowerCase doc fp inputRef p s e =
     (if disabled p then (s, [])
      else
        (let s' = (if isOpen s then s\<lparr>isOpen := False, highlightedIndex := 0\<rparr> else s)
         in case inputRef of
              None \<Rightarrow> (s', [])
            | Some currentElement \<Rightarrow>
                (case (if shiftKey e then getPreviousFocusable doc fp currentElement
                       else getNextFocusable doc fp currentElement) of
                   Some nextElement \<Rightarrow>
                     if namespace nextElement = HTML
                     then (s', [PreventDefault, Focus (eref nextElement)])
                     else (s', [])
                 | None \<Rightarrow> (s', []))))"
  by (simp add: handleKeyDown1_def assms shouldPreventDefault_def
      ESCAPE_def ARROW_DOWN_def ARROW_UP_def ENTER_def TAB_def
      cong: option.case_cong if_cong)

subsection \<open>The two components agree\<close>

lemma filteredOptions1_eq_3: "filteredOptions1 toLowerCase p s = filteredOptions3 toLowerCase p s"
  by (simp add: filteredOptions1_def filteredOptions3_def)

lemma handleOptionSelect1_eq_3: "handleOptionSelect1 p s x = handleOptionSelect3 p s x"
  by (simp add: handleOptionSelect1_def handleOptionSelect3_def)

lemma handleKeyDown1_eq_3:
  assumes "key e \<noteq> TAB"
  shows "handleKeyDown1 toLowerCase doc fp inputRef p s e = handleKeyDown3 toLowerCase p s e"
  unfolding handleKeyDown1_def handleKeyDown3_def filteredOptions1_eq_3 handleOptionSelect1_eq_3
  by (simp only: assms if_False)

text \<open>
  C2. On every key other than Tab, on every input change, option selection and toggle, the
  handlers of Combobox1 and Combobox3 return the same successor state and the same
  effects, whatever the state, the properties and the document. On Tab the successor
  states agree as well (only the effects differ), and the two components render the same
  popup.
\<close>

theorem approach1_agrees_with_approach3:
  "(key e \<noteq> TAB \<longrightarrow>
      handleKeyDown1 toLowerCase doc fp inputRef p s e = handleKeyDown3 toLowerCase p s e)
   \<and> fst (handleKeyDown1 toLowerCase doc fp inputRef p s e)
       = fst (handleKeyDown3 toLowerCase p s e)
   \<and> handleInputChange1 p s v = handleInputChange3 p s v
   \<and> handleOptionSelect1 p s option = handleOptionSelect3 p s option
   \<and> handleToggle1 p s = handleToggle3 p s
   \<and> popup1 toLowerCase p s = popup3 toLowerCase p s"
proof -
  have keys: "key e \<noteq> TAB \<longrightarrow>
      handleKeyDown1 toLowerCase doc fp inputRef p s e = handleKeyDown3 toLowerCase p s e"
    by (simp add: handleKeyDown1_eq_3)
  have states: "fst (handleKeyDown1 toLowerCase doc fp inputRef p s e)
       = fst (handleKeyDown3 toLowerCase p s e)"
  proof (cases "key e = TAB")
    case True
    then show ?thesis
      by (simp add: handleKeyDown1_tab handleKeyDown3_tab Let_def split: option.splits)
  next
    case False
    then show ?thesis by (simp add: handleKeyDown1_eq_3)
  qed
  have change: "handleInputChange1 p s v = handleInputChange3 p s v"
    by (simp add: handleInputChange1_def handleInputChange3_def)
  have toggle: "handleToggle1 p s = handleToggle3 p s"
    by (simp add: handleToggle1_def handleToggle3_def)
  have popup: "popup1 toLowerCase p s = popup3 toLowerCase p s"
    by (simp add: popup1_def popup3_def filteredOptions1_eq_3 ComboboxPopup1_def
        ComboboxPopup3_def)
  from keys states change toggle popup show ?thesis
    by (simp add: handleOptionSelect1_eq_3)
qed

lemma keys_distinct:
  "ENTER \<noteq> TAB" "ARROW_DOWN \<noteq> TAB" "ARROW_UP \<noteq> TAB" "ESCAPE \<noteq> TAB"
  "ENTER \<noteq> ARROW_DOWN" "ENTER \<noteq> ARROW_UP" "ENTER \<noteq> ESCAPE"
  "ARROW_DOWN \<noteq> ARROW_UP" "ARROW_DOWN \<noteq> ESCAPE" "ARROW_UP \<noteq> ESCAPE"
  by (simp_all add: ENTER_def TAB_def ARROW_DOWN_def ARROW_UP_def ESCAPE_def)

theorem approach1_agrees_with_approach3_witness:
  "key (keyDown ENTER) \<noteq> TAB
   \<and> handleKeyDown1 sampleLowerCase formDoc mountedProvider (Some 5) mockProps secondHighlighted
         (keyDown ENTER)
       = handleKeyDown3 sampleLowerCase mockProps secondHighlighted (keyDown ENTER)
   \<and> handleKeyDown3 sampleLowerCase mockProps secondHighlighted (keyDown ENTER)
       = (\<lparr>isOpen = False, inputValue = js ''Banana'', highlightedIndex = 0,
           isTogglingRef = False\<rparr>,
          [PreventDefault, CallOnSelectionChange (mockOptions ! 1)])
   \<and> handleKeyDown1 sampleLowerCase formDoc mountedProvider (Some 5) mockProps secondHighlighted
         (keyDown TAB)
       = (\<lparr>isOpen = False, inputValue = [], highlightedIndex = 0, isTogglingRef = False\<rparr>,
          [PreventDefault, Focus 6])
   \<and> handleKeyDown1 sampleLowerCase drawingDoc mountedProvider (Some 2) mockProps
         secondHighlighted (keyDown TAB)
       = (\<lparr>isOpen = False, inputValue = [], highlightedIndex = 0, isTogglingRef = False\<rparr>, [])
   \<and> handleKeyDown3 sampleLowerCase mockProps secondHighlighted (keyDown TAB)
       = (\<lparr>isOpen = False, inputValue = [], highlightedIndex = 0, isTogglingRef = False\<rparr>, [])"
proof -
  have k: "key (keyDown ENTER) \<noteq> TAB" by (simp add: keyDown_def keys_distinct)
  have ev: "handleKeyDown3 sampleLowerCase mockProps secondHighlighted (keyDown ENTER)
       = (\<lparr>isOpen = False, inputValue = js ''Banana'', highlightedIndex = 0,
           isTogglingRef = False\<rparr>,
          [PreventDefault, CallOnSelectionChange (mockOptions ! 1)])"
    by code_simp
  have tab1: "handleKeyDown1 sampleLowerCase formDoc mountedProvider (Some 5) mockProps
         secondHighlighted (keyDown TAB)
       = (\<lparr>isOpen = False, inputValue = [], highlightedIndex = 0, isTogglingRef = False\<rparr>,
          [PreventDefault, Focus 6])"
    by code_simp
  have tab1': "handleKeyDown1 sampleLowerCase drawingDoc mountedProvider (Some 2) mockProps
         secondHighlighted (keyDown TAB)
       = (\<lparr>isOpen = False, inputValue = [], highlightedIndex = 0, isTogglingRef = False\<rparr>, [])"
    by code_simp
  have tab3: "handleKeyDown3 sampleLowerCase mockProps secondHighlighted (keyDown TAB)
       = (\<lparr>isOpen = False, inputValue = [], highlightedIndex = 0, isTogglingRef = False\<rparr>, [])"
    by code_simp
  from approach1_agrees_with_approach3
    [where e = "keyDown ENTER" and toLowerCase = sampleLowerCase and doc = formDoc
       and fp = mountedProvider and inputRef = "Some 5" and p = mockProps
       and s = secondHighlighted] k
  have "handleKeyDown1 sampleLowerCase formDoc mountedProvider (Some 5) mockProps
         secondHighlighted (keyDown ENTER)
       = handleKeyDown3 sampleLowerCase mockProps secondHighlighted (keyDown ENTER)"
    by blast
  with k ev tab1 tab1' tab3 show ?thesis by blast
qed

subsection \<open>The disabled flag\<close>

text \<open>
  C7. With the disabled flag set, a key press, an input change and a click on the input
  leave the state as it is and invoke nothing, in both components.
\<close>

theorem disabled_is_noop:
  assumes "disabled p"
  shows "handleKeyDown3 toLowerCase p s e = (s, [])
       \<and> handleInputChange3 p s v = (s, [])
       \<and> handleToggle3 p s = (s, [])
       \<and> handleKeyDown1 toLowerCase doc fp inputRef p s e = (s, [])
       \<and> handleInputChange1 p s v = (s, [])
       \<and> handleToggle1 p s = (s, [])"
  using assms
  by (simp add: handleKeyDown3_def handleInputChange3_def handleToggle3_def
      handleKeyDown1_def handleInputChange1_def handleToggle1_def)

theorem disabled_is_noop_witness:
  "disabled disabledProps
   \<and> handleKeyDown3 sampleLowerCase disabledProps (initialState mockProps) (keyDown ARROW_DOWN)
       = (initialState mockProps, [])
   \<and> handleInputChange3 disabledProps (initialState mockProps) (js ''app'')
       = (initialState mockProps, [])
   \<and> handleToggle3 disabledProps (initialState mockProps)
       = (initialState mockProps, [])"
proof -
  have d: "disabled disabledProps" by (simp add: disabledProps_def)
  from disabled_is_noop [OF d] d show ?thesis by simp
qed

subsection \<open>Escape\<close>

lemma disabled_stays_mounted:
  assumes "disabled p" "reachable3 toLowerCase p s"
  shows "s = mount p"
  using assms(2)
proof (induction rule: reachable3.induct)
  case mounted
  show ?case by simp
next
  case (stepped s ev)
  have closed: "\<not> isOpen (mount p)"
    by (simp add: mount_def syncValue_def initialState_def split: option.splits)
  from stepped.IH closed have "\<not> isOpen s" by simp
  with assms(1) have "step3 toLowerCase p s ev = s"
    by (cases ev)
       (simp_all add: handleKeyDown3_def handleInputChange3_def handleClickOutside_def)
  with stepped.IH show ?case by simp
qed

lemma mount_closed: "\<not> isOpen (mount p) \<and> highlightedIndex (mount p) = 0"
  by (simp add: mount_def syncValue_def initialState_def split: option.splits)

text \<open>
  C6 (amended). In a widget that is not disabled, Escape closes the popup whatever the
  state: \<open>isOpen\<close> becomes false and the highlighted index 0, nothing else in the state
  changes, and the only effect is \<^verbatim>\<open>preventDefault\<close> on the event: no selection, no callback
  of the caller. In a disabled widget the handler returns at its guard and Escape changes
  nothing. Both components behave so. In every state reached through the widget's own
  events while its properties stay the same, the popup is closed and the index 0 after
  Escape, disabled or not.
\<close>

theorem escape_closes_popup:
  assumes "key e = ESCAPE"
  shows "handleKeyDown3 toLowerCase p s e =
           (if disabled p then (s, [])
            else (s\<lparr>isOpen := False, highlightedIndex := 0\<rparr>, [PreventDefault]))
       \<and> handleKeyDown1 toLowerCase doc fp inputRef p s e =
           (if disabled p then (s, [])
            else (s\<lparr>isOpen := False, highlightedIndex := 0\<rparr>, [PreventDefault]))
       \<and> (reachable3 toLowerCase p s \<longrightarrow>
            \<not> isOpen (fst (handleKeyDown3 toLowerCase p s e))
            \<and> highlightedIndex (fst (handleKeyDown3 toLowerCase p s e)) = 0
            \<and> inputValue (fst (handleKeyDown3 toLowerCase p s e)) = inputValue s)"
proof -
  have h3: "handleKeyDown3 toLowerCase p s e =
           (if disabled p then (s, [])
            else (s\<lparr>isOpen := False, highlightedIndex := 0\<rparr>, [PreventDefault]))"
    using assms by (rule handleKeyDown3_escape)
  have h1: "handleKeyDown1 toLowerCase doc fp inputRef p s e = handleKeyDown3 toLowerCase p s e"
    by (rule handleKeyDown1_eq_3) (rule key_not_tab(1) [OF assms])
  have r: "\<not> isOpen (fst (handleKeyDown3 toLowerCase p s e))
            \<and> highlightedIndex (fst (handleKeyDown3 toLowerCase p s e)) = 0
            \<and> inputValue (fst (handleKeyDown3 toLowerCase p s e)) = inputValue s" if "reachable3 toLowerCase p s"
  proof (cases "disabled p")
    case True
    from True that have "s = mount p" by (rule disabled_stays_mounted)
    with True mount_closed [where p = p] show ?thesis
      by (simp add: handleKeyDown3_escape [OF assms])
  next
    case False
    then show ?thesis by (simp add: h3)
  qed
  from h3 h1 r show ?thesis by simp
qed

theorem escape_closes_popup_witness:
  "key (keyDown ESCAPE) = ESCAPE
   \<and> handleKeyDown3 sampleLowerCase mockProps secondHighlighted (keyDown ESCAPE)
       = (\<lparr>isOpen = False, inputValue = [], highlightedIndex = 0, isTogglingRef = False\<rparr>,
          [PreventDefault])
   \<and> handleKeyDown3 sampleLowerCase disabledProps secondHighlighted (keyDown ESCAPE) = (secondHighlighted, [])
   \<and> reachable3 sampleLowerCase disabledProps (mount disabledProps)
   \<and> \<not> isOpen (fst (handleKeyDown3 sampleLowerCase disabledProps (mount disabledProps) (keyDown ESCAPE)))"
proof -
  have k: "key (keyDown ESCAPE) = ESCAPE" by (simp add: keyDown_def)
  have r: "reachable3 sampleLowerCase disabledProps (mount disabledProps)" by (rule reachable3.mounted)
  from escape_closes_popup [OF k, where toLowerCase = sampleLowerCase and p = disabledProps
      and s = "mount disabledProps"] r
  have c: "\<not> isOpen (fst (handleKeyDown3 sampleLowerCase disabledProps (mount disabledProps) (keyDown ESCAPE)))"
    by blast
  from escape_closes_popup [OF k, where toLowerCase = sampleLowerCase and p = mockProps
      and s = secondHighlighted]
       escape_closes_popup [OF k, where toLowerCase = sampleLowerCase and p = disabledProps
      and s = secondHighlighted] k r c
  show ?thesis by (simp add: mockProps_def disabledProps_def secondHighlighted_def)
qed

text \<open>
  C6 as stated (for every state) fails at the disabled guard: the popup opened by ArrowDown
  stays open when Escape arrives after the widget has been disabled.
\<close>

theorem escape_ignored_when_disabled:
  "isOpen openedState
   \<and> isOpen (fst (handleKeyDown3 sampleLowerCase disabledProps openedState (keyDown ESCAPE)))"
  by code_simp


subsection \<open>Enter\<close>

lemma at_index_Some_iff:
  "at_index xs i = Some x \<longleftrightarrow> 0 \<le> i \<and> i < int (length xs) \<and> x = xs ! nat i"
  by (auto simp: at_index_def)

lemma at_index_None_iff: "at_index xs i = None \<longleftrightarrow> i < 0 \<or> int (length xs) \<le> i"
  by (auto simp: at_index_def)

text \<open>
  C10 (amended). Enter selects only when the widget is not disabled, the popup is open and
  an option exists at the highlighted index: then the input text becomes that option's
  label, the popup closes, the index returns to 0 and \<^verbatim>\<open>onSelectionChange\<close> (when the caller
  supplied it) is invoked with that option, once. In every other case (disabled, popup
  closed, filtered list empty, index out of range) the state is unchanged and no callback
  is invoked. Both components behave so.
\<close>

theorem enter_selects_highlighted_option:
  assumes "key e = ENTER"
  shows "(\<not> disabled p \<and> isOpen s \<and> 0 \<le> highlightedIndex s
            \<and> highlightedIndex s < int (length (filteredOptions3 toLowerCase p s)) \<longrightarrow>
          handleKeyDown3 toLowerCase p s e =
            (s\<lparr>inputValue := label (filteredOptions3 toLowerCase p s ! nat (highlightedIndex s)),
               isOpen := False, highlightedIndex := 0\<rparr>,
             PreventDefault #
               (if onSelectionChange p
                then [CallOnSelectionChange (filteredOptions3 toLowerCase p s ! nat (highlightedIndex s))]
                else [])))
       \<and> (disabled p \<or> \<not> isOpen s \<or> highlightedIndex s < 0
            \<or> int (length (filteredOptions3 toLowerCase p s)) \<le> highlightedIndex s \<longrightarrow>
          fst (handleKeyDown3 toLowerCase p s e) = s
          \<and> (\<forall>x \<in> set (snd (handleKeyDown3 toLowerCase p s e)). x = PreventDefault))
       \<and> handleKeyDown1 toLowerCase doc fp inputRef p s e = handleKeyDown3 toLowerCase p s e"
proof -
  have eq1: "handleKeyDown1 toLowerCase doc fp inputRef p s e = handleKeyDown3 toLowerCase p s e"
    by (rule handleKeyDown1_eq_3) (rule key_not_tab(2) [OF assms])
  show ?thesis
    unfolding eq1 handleKeyDown3_enter [OF assms]
    by (auto simp: at_index_def)
qed

theorem enter_selects_highlighted_option_witness:
  "key (keyDown ENTER) = ENTER
   \<and> handleKeyDown3 sampleLowerCase mockProps secondHighlighted (keyDown ENTER)
       = (\<lparr>isOpen = False, inputValue = js ''Banana'', highlightedIndex = 0, isTogglingRef = False\<rparr>,
          [PreventDefault, CallOnSelectionChange (mockOptions ! 1)])
   \<and> fst (handleKeyDown3 sampleLowerCase mockProps (initialState mockProps) (keyDown ENTER)) = initialState mockProps"
proof -
  have k: "key (keyDown ENTER) = ENTER" by (simp add: keyDown_def)
  have fo: "filteredOptions3 sampleLowerCase mockProps secondHighlighted = mockOptions" by code_simp
  have pre: "\<not> disabled mockProps \<and> isOpen secondHighlighted \<and> 0 \<le> highlightedIndex secondHighlighted
      \<and> highlightedIndex secondHighlighted < int (length (filteredOptions3 sampleLowerCase mockProps secondHighlighted))"
    unfolding fo by (simp add: mockProps_def secondHighlighted_def mockOptions_def)
  have closed: "\<not> isOpen (initialState mockProps)" by (simp add: initialState_def)
  from enter_selects_highlighted_option [OF k, where toLowerCase = sampleLowerCase and p = mockProps
      and s = secondHighlighted] pre
  have a: "handleKeyDown3 sampleLowerCase mockProps secondHighlighted (keyDown ENTER) =
            (secondHighlighted\<lparr>inputValue := label (mockOptions ! nat (highlightedIndex secondHighlighted)),
               isOpen := False, highlightedIndex := 0\<rparr>,
             PreventDefault #
               (if onSelectionChange mockProps
                then [CallOnSelectionChange (mockOptions ! nat (highlightedIndex secondHighlighted))]
                else []))"
    unfolding fo by blast
  from enter_selects_highlighted_option [OF k, where toLowerCase = sampleLowerCase and p = mockProps
      and s = "initialState mockProps"] closed
  have b: "fst (handleKeyDown3 sampleLowerCase mockProps (initialState mockProps) (keyDown ENTER)) = initialState mockProps"
    by blast
  from a b k show ?thesis
    by (simp add: secondHighlighted_def mockProps_def mockOptions_def)
qed

text \<open>
  C10 as stated fails at the disabled guard: with the popup open and an option at the
  highlighted index, Enter on a disabled widget selects nothing.
\<close>

theorem enter_ignored_when_disabled:
  "isOpen openedState
   \<and> at_index (filteredOptions3 sampleLowerCase disabledProps openedState) (highlightedIndex openedState)
       = Some (mockOptions ! 0)
   \<and> handleKeyDown3 sampleLowerCase disabledProps openedState (keyDown ENTER) = (openedState, [])"
  by code_simp

subsection \<open>ArrowDown and ArrowUp\<close>

lemma filteredOptions3_inputValue:
  "inputValue t = inputValue s \<Longrightarrow> filteredOptions3 toLowerCase p t = filteredOptions3 toLowerCase p s"
  by (simp add: filteredOptions3_def)

lemma arrow_step:
  assumes "isOpen s" "0 \<le> highlightedIndex s"
    "highlightedIndex s < int (length (filteredOptions3 toLowerCase p s))"
    "key e = ARROW_DOWN \<or> key e = ARROW_UP"
  shows "isOpen (fst (handleKeyDown3 toLowerCase p s e))
       \<and> inputValue (fst (handleKeyDown3 toLowerCase p s e)) = inputValue s
       \<and> 0 \<le> highlightedIndex (fst (handleKeyDown3 toLowerCase p s e))
       \<and> highlightedIndex (fst (handleKeyDown3 toLowerCase p s e)) < int (length (filteredOptions3 toLowerCase p s))"
  using assms
  by (auto simp: handleKeyDown3_arrow_down handleKeyDown3_arrow_up)

lemma arrow_run:
  assumes "\<forall>e \<in> set es. key e = ARROW_DOWN \<or> key e = ARROW_UP"
    and "isOpen s" "0 \<le> highlightedIndex s"
    and "highlightedIndex s < int (length (filteredOptions3 toLowerCase p s))"
  shows "isOpen (pressKeys3 toLowerCase p s es)
       \<and> inputValue (pressKeys3 toLowerCase p s es) = inputValue s
       \<and> 0 \<le> highlightedIndex (pressKeys3 toLowerCase p s es)
       \<and> highlightedIndex (pressKeys3 toLowerCase p s es) < int (length (filteredOptions3 toLowerCase p s))"
  using assms
proof (induction es arbitrary: s)
  case Nil
  then show ?case by simp
next
  case (Cons e es)
  let ?t = "fst (handleKeyDown3 toLowerCase p s e)"
  from Cons.prems have ke: "key e = ARROW_DOWN \<or> key e = ARROW_UP" by simp
  from arrow_step [OF Cons.prems(2,3,4) ke]
  have t: "isOpen ?t" "inputValue ?t = inputValue s" "0 \<le> highlightedIndex ?t"
    "highlightedIndex ?t < int (length (filteredOptions3 toLowerCase p s))" by simp_all
  have fo: "filteredOptions3 toLowerCase p ?t = filteredOptions3 toLowerCase p s"
    using t(2) by (rule filteredOptions3_inputValue)
  from Cons.prems(1) have rest: "\<forall>e \<in> set es. key e = ARROW_DOWN \<or> key e = ARROW_UP" by simp
  from Cons.IH [OF rest t(1) t(3)] t(4) fo t(2)
  show ?case by simp
qed

lemma pressKeys1_eq_3:
  assumes "\<forall>e \<in> set es. key e \<noteq> TAB"
  shows "pressKeys1 toLowerCase doc fp inputRef p s es = pressKeys3 toLowerCase p s es"
  using assms by (induction es arbitrary: s) (simp_all add: handleKeyDown1_eq_3)

lemma pressKeys3_disabled: "disabled p \<Longrightarrow> pressKeys3 toLowerCase p s es = s"
  by (induction es arbitrary: s) (simp_all add: handleKeyDown3_def)

text \<open>
  C9 (amended). With the popup open on a non-empty filtered list of length \<open>n\<close> and the
  highlighted index at 0, after every sequence of ArrowDown and ArrowUp presses the popup
  is still open on the same list and the index lies in \<open>[0, n - 1]\<close>. From there, in a
  widget that is not disabled, ArrowDown moves the index up by one and from \<open>n - 1\<close> to
  0, ArrowUp moves it down by one and from 0 to \<open>n - 1\<close>; in a disabled widget neither key
  moves it. Both components behave so.
\<close>

theorem arrow_keys_cycle_in_range:
  assumes "isOpen s" and "filteredOptions3 toLowerCase p s \<noteq> []" and "highlightedIndex s = 0"
    and "\<forall>e \<in> set es. key e = ARROW_DOWN \<or> key e = ARROW_UP"
  shows "0 \<le> highlightedIndex (pressKeys3 toLowerCase p s es)
       \<and> highlightedIndex (pressKeys3 toLowerCase p s es) < int (length (filteredOptions3 toLowerCase p s))
       \<and> isOpen (pressKeys3 toLowerCase p s es)
       \<and> filteredOptions3 toLowerCase p (pressKeys3 toLowerCase p s es) = filteredOptions3 toLowerCase p s
       \<and> pressKeys1 toLowerCase doc fp inputRef p s es = pressKeys3 toLowerCase p s es
       \<and> (\<forall>e. key e = ARROW_DOWN \<longrightarrow>
             highlightedIndex (fst (handleKeyDown3 toLowerCase p (pressKeys3 toLowerCase p s es) e)) =
               (if disabled p then highlightedIndex (pressKeys3 toLowerCase p s es)
                else if highlightedIndex (pressKeys3 toLowerCase p s es) = int (length (filteredOptions3 toLowerCase p s)) - 1
                then 0 else highlightedIndex (pressKeys3 toLowerCase p s es) + 1))
       \<and> (\<forall>e. key e = ARROW_UP \<longrightarrow>
             highlightedIndex (fst (handleKeyDown3 toLowerCase p (pressKeys3 toLowerCase p s es) e)) =
               (if disabled p then highlightedIndex (pressKeys3 toLowerCase p s es)
                else if highlightedIndex (pressKeys3 toLowerCase p s es) = 0
                then int (length (filteredOptions3 toLowerCase p s)) - 1
                else highlightedIndex (pressKeys3 toLowerCase p s es) - 1))"
proof -
  let ?t = "pressKeys3 toLowerCase p s es"
  have "highlightedIndex s < int (length (filteredOptions3 toLowerCase p s))"
    using assms(2,3) by simp
  with arrow_run [OF assms(4) assms(1), where p = p and toLowerCase = toLowerCase] assms(3)
  have t: "isOpen ?t" "inputValue ?t = inputValue s" "0 \<le> highlightedIndex ?t"
    "highlightedIndex ?t < int (length (filteredOptions3 toLowerCase p s))" by simp_all
  have fo: "filteredOptions3 toLowerCase p ?t = filteredOptions3 toLowerCase p s"
    using t(2) by (rule filteredOptions3_inputValue)
  have nt: "\<forall>e \<in> set es. key e \<noteq> TAB"
    using assms(4) key_not_tab(3,4) by blast
  have eq1: "pressKeys1 toLowerCase doc fp inputRef p s es = ?t"
    using nt by (rule pressKeys1_eq_3)
  have down: "highlightedIndex (fst (handleKeyDown3 toLowerCase p ?t e)) =
               (if disabled p then highlightedIndex ?t
                else if highlightedIndex ?t = int (length (filteredOptions3 toLowerCase p s)) - 1
                then 0 else highlightedIndex ?t + 1)" if "key e = ARROW_DOWN" for e
    using t that by (auto simp: handleKeyDown3_arrow_down fo)
  have up: "highlightedIndex (fst (handleKeyDown3 toLowerCase p ?t e)) =
               (if disabled p then highlightedIndex ?t
                else if highlightedIndex ?t = 0
                then int (length (filteredOptions3 toLowerCase p s)) - 1
                else highlightedIndex ?t - 1)" if "key e = ARROW_UP" for e
    using t that by (auto simp: handleKeyDown3_arrow_up fo)
  from t fo eq1 down up show ?thesis by blast
qed

theorem arrow_keys_cycle_in_range_witness:
  "isOpen openedState
   \<and> filteredOptions3 sampleLowerCase mockProps openedState = mockOptions
   \<and> highlightedIndex openedState = 0
   \<and> highlightedIndex (pressKeys3 sampleLowerCase mockProps openedState
         [keyDown ARROW_DOWN, keyDown ARROW_DOWN, keyDown ARROW_UP, keyDown ARROW_DOWN]) = 2
   \<and> highlightedIndex (pressKeys3 sampleLowerCase mockProps openedState
         [keyDown ARROW_DOWN, keyDown ARROW_DOWN, keyDown ARROW_UP, keyDown ARROW_DOWN])
       < int (length (filteredOptions3 sampleLowerCase mockProps openedState))
   \<and> highlightedIndex (fst (handleKeyDown3 sampleLowerCase mockProps
         (pressKeys3 sampleLowerCase mockProps openedState
            [keyDown ARROW_DOWN, keyDown ARROW_DOWN, keyDown ARROW_UP, keyDown ARROW_DOWN])
         (keyDown ARROW_DOWN))) = 3
   \<and> highlightedIndex (fst (handleKeyDown3 sampleLowerCase mockProps (pressKeys3 sampleLowerCase mockProps openedState [])
         (keyDown ARROW_UP))) = 3"
proof -
  let ?es = "[keyDown ARROW_DOWN, keyDown ARROW_DOWN, keyDown ARROW_UP, keyDown ARROW_DOWN]"
  have h1: "isOpen openedState" by code_simp
  have fo: "filteredOptions3 sampleLowerCase mockProps openedState = mockOptions" by code_simp
  have h2: "filteredOptions3 sampleLowerCase mockProps openedState \<noteq> []"
    unfolding fo by (simp add: mockOptions_def)
  have h3: "highlightedIndex openedState = 0" by code_simp
  have h4: "\<forall>e \<in> set ?es. key e = ARROW_DOWN \<or> key e = ARROW_UP"
    by (simp add: keyDown_def)
  have h4': "\<forall>e \<in> set []. key e = ARROW_DOWN \<or> key e = ARROW_UP"
    by simp
  have n: "int (length (filteredOptions3 sampleLowerCase mockProps openedState)) = 4"
    unfolding fo by (simp add: mockOptions_def)
  have en: "\<not> disabled mockProps" by (simp add: mockProps_def)
  have kd: "key (keyDown ARROW_DOWN) = ARROW_DOWN" and ku: "key (keyDown ARROW_UP) = ARROW_UP"
    by (simp_all add: keyDown_def)
  have ev: "highlightedIndex (pressKeys3 sampleLowerCase mockProps openedState ?es) = 2" by code_simp
  note t = arrow_keys_cycle_in_range [OF h1 h2 h3 h4, where doc = emptyDoc and fp = unmountedProvider
      and inputRef = None]
  from t have range: "highlightedIndex (pressKeys3 sampleLowerCase mockProps openedState ?es)
          < int (length (filteredOptions3 sampleLowerCase mockProps openedState))"
    by blast
  from t kd have "highlightedIndex (fst (handleKeyDown3 sampleLowerCase mockProps
         (pressKeys3 sampleLowerCase mockProps openedState ?es) (keyDown ARROW_DOWN))) =
       (if disabled mockProps then highlightedIndex (pressKeys3 sampleLowerCase mockProps openedState ?es)
        else if highlightedIndex (pressKeys3 sampleLowerCase mockProps openedState ?es)
                = int (length (filteredOptions3 sampleLowerCase mockProps openedState)) - 1
        then 0 else highlightedIndex (pressKeys3 sampleLowerCase mockProps openedState ?es) + 1)"
    by blast
  then have down: "highlightedIndex (fst (handleKeyDown3 sampleLowerCase mockProps
         (pressKeys3 sampleLowerCase mockProps openedState ?es) (keyDown ARROW_DOWN))) = 3"
    unfolding ev n using en by simp
  from arrow_keys_cycle_in_range [OF h1 h2 h3 h4', where doc = emptyDoc and fp = unmountedProvider
      and inputRef = None] ku
  have "highlightedIndex (fst (handleKeyDown3 sampleLowerCase mockProps
         (pressKeys3 sampleLowerCase mockProps openedState []) (keyDown ARROW_UP))) =
       (if disabled mockProps then highlightedIndex (pressKeys3 sampleLowerCase mockProps openedState [])
        else if highlightedIndex (pressKeys3 sampleLowerCase mockProps openedState []) = 0
        then int (length (filteredOptions3 sampleLowerCase mockProps openedState)) - 1
        else highlightedIndex (pressKeys3 sampleLowerCase mockProps openedState []) - 1)"
    by blast
  then have up: "highlightedIndex (fst (handleKeyDown3 sampleLowerCase mockProps
         (pressKeys3 sampleLowerCase mockProps openedState []) (keyDown ARROW_UP))) = 3"
    unfolding n using en h3 by simp
  from h1 fo h3 ev range down up show ?thesis by blast
qed

text \<open>
  C9 as stated fails at the disabled guard: with the popup open on four options and the
  index at 0, ArrowDown on a disabled widget leaves the index at 0.
\<close>

theorem arrow_down_ignored_when_disabled:
  "isOpen openedState
   \<and> length (filteredOptions3 sampleLowerCase disabledProps openedState) = 4
   \<and> highlightedIndex openedState = 0
   \<and> highlightedIndex (fst (handleKeyDown3 sampleLowerCase disabledProps openedState (keyDown ARROW_DOWN))) = 0"
  by code_simp

subsection \<open>Virtual focus (approach 3)\<close>

lemma index_valid_mount: "index_valid toLowerCase p (mount p)"
  by (auto simp: index_valid_def mount_def syncValue_def initialState_def filteredOptions3_def
      split: option.splits)

lemma index_valid_reset:
  "\<not> isTogglingRef s \<Longrightarrow> index_valid toLowerCase p (s\<lparr>inputValue := v, isOpen := b, highlightedIndex := 0\<rparr>)"
  by (auto simp: index_valid_def)

lemma index_valid_keyDown:
  assumes "index_valid toLowerCase p s"
  shows "index_valid toLowerCase p (fst (handleKeyDown3 toLowerCase p s e))"
proof -
  consider "key e = ARROW_DOWN" | "key e = ARROW_UP" | "key e = ENTER" | "key e = ESCAPE"
    | "key e = TAB" | "key e \<notin> {ARROW_DOWN, ARROW_UP, ENTER, ESCAPE, TAB}" by blast
  then show ?thesis
  proof cases
    case 1
    with assms show ?thesis
      by (auto simp: handleKeyDown3_arrow_down index_valid_def filteredOptions3_def)
  next
    case 2
    with assms show ?thesis
      by (auto simp: handleKeyDown3_arrow_up index_valid_def filteredOptions3_def)
  next
    case 3
    with assms show ?thesis
      by (auto simp: handleKeyDown3_enter index_valid_def filteredOptions3_def
          split: option.splits)
  next
    case 4
    with assms show ?thesis
      by (auto simp: handleKeyDown3_escape index_valid_def filteredOptions3_def)
  next
    case 5
    with assms show ?thesis
      by (auto simp: handleKeyDown3_tab index_valid_def filteredOptions3_def)
  next
    case 6
    with assms show ?thesis by (simp add: handleKeyDown3_other)
  qed
qed

lemma index_valid_step:
  assumes "index_valid toLowerCase p s"
  shows "index_valid toLowerCase p (step3 toLowerCase p s ev)"
proof (cases ev)
  case (KeyPress e)
  with assms show ?thesis by (simp add: index_valid_keyDown)
next
  case (Typing v)
  with assms show ?thesis
    by (auto simp: handleInputChange3_def index_valid_def)
next
  case InputClick
  with assms show ?thesis
    by (auto simp: handleToggle3_def toggleMicrotask_def index_valid_def filteredOptions3_def)
next
  case (OptionClick option)
  with assms show ?thesis
    by (auto simp: handleOptionSelect3_def index_valid_def)
next
  case (MouseDown inside)
  with assms show ?thesis
    by (auto simp: handleClickOutside_def index_valid_def filteredOptions3_def)
qed

lemma reachable3_index_valid: "reachable3 toLowerCase p s \<Longrightarrow> index_valid toLowerCase p s"
  by (induction rule: reachable3.induct) (simp_all add: index_valid_mount index_valid_step)

lemma handleKeyDown3_no_focus: "Focus r \<notin> set (snd (handleKeyDown3 toLowerCase p s e))"
  by (auto simp: handleKeyDown3_def handleOptionSelect3_def Let_def split: option.splits if_splits)

lemma aria_activedescendant_eq:
  "aria_activedescendant toLowerCase p s =
     (if isOpen s
      then map_option (\<lambda>opt. js ''option-'' @ id_of opt)
             (at_index (filteredOptions3 toLowerCase p s) (highlightedIndex s))
      else None)"
  by (auto simp: aria_activedescendant_def activeDescendantId_def at_index_def Let_def js_def
      split: option.splits)

text \<open>
  C4 (amended). The key handler of Combobox3 never focuses an element, and on Tab it does
  not call \<^verbatim>\<open>preventDefault\<close> either. While the popup is open and an option exists at the
  highlighted index of the filtered list, the input's \<^verbatim>\<open>aria-activedescendant\<close> is
  \<^verbatim>\<open>option-\<close> followed by that option's id; when the popup is closed, the filtered list is
  empty or the index is out of range, the attribute is absent. In every state reached
  through the widget's own events while its properties stay the same, the index is in
  range whenever the filtered list is not empty.
\<close>

theorem virtual_focus_stays_on_input:
  "(\<forall>r. Focus r \<notin> set (snd (handleKeyDown3 toLowerCase p s e)))
   \<and> (key e = TAB \<longrightarrow> snd (handleKeyDown3 toLowerCase p s e) = [])
   \<and> (isOpen s \<and> 0 \<le> highlightedIndex s
        \<and> highlightedIndex s < int (length (filteredOptions3 toLowerCase p s)) \<longrightarrow>
      aria_activedescendant toLowerCase p s =
        Some (js ''option-'' @ id_of (filteredOptions3 toLowerCase p s ! nat (highlightedIndex s))))
   \<and> (\<not> isOpen s \<or> filteredOptions3 toLowerCase p s = [] \<or> highlightedIndex s < 0
        \<or> int (length (filteredOptions3 toLowerCase p s)) \<le> highlightedIndex s \<longrightarrow>
      aria_activedescendant toLowerCase p s = None)
   \<and> (reachable3 toLowerCase p s \<and> filteredOptions3 toLowerCase p s \<noteq> [] \<longrightarrow>
      0 \<le> highlightedIndex s \<and> highlightedIndex s < int (length (filteredOptions3 toLowerCase p s)))"
proof -
  have tab: "key e = TAB \<longrightarrow> snd (handleKeyDown3 toLowerCase p s e) = []"
    by (simp add: handleKeyDown3_tab)
  have reach: "reachable3 toLowerCase p s \<and> filteredOptions3 toLowerCase p s \<noteq> [] \<longrightarrow>
      0 \<le> highlightedIndex s \<and> highlightedIndex s < int (length (filteredOptions3 toLowerCase p s))"
    using reachable3_index_valid [where p = p and s = s and toLowerCase = toLowerCase] by (auto simp: index_valid_def)
  have present: "isOpen s \<and> 0 \<le> highlightedIndex s
        \<and> highlightedIndex s < int (length (filteredOptions3 toLowerCase p s)) \<longrightarrow>
      aria_activedescendant toLowerCase p s =
        Some (js ''option-'' @ id_of (filteredOptions3 toLowerCase p s ! nat (highlightedIndex s)))"
    by (simp add: aria_activedescendant_eq at_index_def)
  have absent: "\<not> isOpen s \<or> filteredOptions3 toLowerCase p s = [] \<or> highlightedIndex s < 0
        \<or> int (length (filteredOptions3 toLowerCase p s)) \<le> highlightedIndex s \<longrightarrow>
      aria_activedescendant toLowerCase p s = None"
    by (auto simp: aria_activedescendant_eq at_index_def)
  from handleKeyDown3_no_focus tab reach present absent show ?thesis by blast
qed

theorem virtual_focus_stays_on_input_witness:
  "reachable3 sampleLowerCase mockProps lastHighlighted
   \<and> isOpen lastHighlighted
   \<and> filteredOptions3 sampleLowerCase mockProps lastHighlighted = mockOptions
   \<and> highlightedIndex lastHighlighted = 3
   \<and> highlightedIndex lastHighlighted < int (length (filteredOptions3 sampleLowerCase mockProps lastHighlighted))
   \<and> aria_activedescendant sampleLowerCase mockProps lastHighlighted = Some (js ''option-4'')
   \<and> aria_activedescendant sampleLowerCase mockProps (initialState mockProps) = None
   \<and> snd (handleKeyDown3 sampleLowerCase mockProps lastHighlighted \<lparr>key = TAB, shiftKey = False\<rparr>) = []"
proof -
  have m: "mount mockProps = initialState mockProps"
    by (simp add: mount_def syncValue_def mockProps_def)
  have r0: "reachable3 sampleLowerCase mockProps (initialState mockProps)"
    using reachable3.mounted [where p = mockProps and toLowerCase = sampleLowerCase] by (simp add: m)
  have r1: "reachable3 sampleLowerCase mockProps openedState"
    using reachable3.stepped [OF r0, where ev = "KeyPress (keyDown ARROW_DOWN)"]
    by (simp add: openedState_def)
  have r2: "reachable3 sampleLowerCase mockProps (pressKeys3 sampleLowerCase mockProps openedState [keyDown ARROW_DOWN])"
    using reachable3.stepped [OF r1, where ev = "KeyPress (keyDown ARROW_DOWN)"] by simp
  have r3: "reachable3 sampleLowerCase mockProps
      (pressKeys3 sampleLowerCase mockProps openedState [keyDown ARROW_DOWN, keyDown ARROW_DOWN])"
    using reachable3.stepped [OF r2, where ev = "KeyPress (keyDown ARROW_DOWN)"] by simp
  have r4: "reachable3 sampleLowerCase mockProps lastHighlighted"
    using reachable3.stepped [OF r3, where ev = "KeyPress (keyDown ARROW_DOWN)"]
    by (simp add: lastHighlighted_def)
  have o: "isOpen lastHighlighted" by code_simp
  have fo: "filteredOptions3 sampleLowerCase mockProps lastHighlighted = mockOptions" by code_simp
  have ne: "filteredOptions3 sampleLowerCase mockProps lastHighlighted \<noteq> []"
    unfolding fo by (simp add: mockOptions_def)
  have hi: "highlightedIndex lastHighlighted = 3" by code_simp
  have c: "\<not> isOpen (initialState mockProps)" by (simp add: initialState_def)
  have k: "key \<lparr>key = TAB, shiftKey = False\<rparr> = TAB" by simp
  note t = virtual_focus_stays_on_input
    [where toLowerCase = sampleLowerCase and p = mockProps and s = lastHighlighted
       and e = "\<lparr>key = TAB, shiftKey = False\<rparr>"]
  from t r4 ne have range: "0 \<le> highlightedIndex lastHighlighted
      \<and> highlightedIndex lastHighlighted < int (length (filteredOptions3 sampleLowerCase mockProps lastHighlighted))"
    by blast
  from t o range have a: "aria_activedescendant sampleLowerCase mockProps lastHighlighted =
      Some (js ''option-'' @ id_of (filteredOptions3 sampleLowerCase mockProps lastHighlighted ! nat (highlightedIndex lastHighlighted)))"
    by blast
  from virtual_focus_stays_on_input
    [where toLowerCase = sampleLowerCase and p = mockProps and s = "initialState mockProps"] c
  have b: "aria_activedescendant sampleLowerCase mockProps (initialState mockProps) = None" by blast
  from t k have d: "snd (handleKeyDown3 sampleLowerCase mockProps lastHighlighted \<lparr>key = TAB, shiftKey = False\<rparr>) = []"
    by blast
  from a have a': "aria_activedescendant sampleLowerCase mockProps lastHighlighted = Some (js ''option-4'')"
    unfolding fo hi by (simp add: mockOptions_def js_def)
  from r4 o fo hi range a' b d show ?thesis by blast
qed

text \<open>
  C4 as stated fails once the caller changes the \<open>value\<close> property: the \<^verbatim>\<open>[value]\<close> effect
  replaces the input text and keeps the highlighted index, so the popup can be open on a
  non-empty filtered list with no option at the index, and the attribute is absent.
\<close>

theorem stale_index_after_value_change:
  "isOpen afterValueChange
   \<and> filteredOptions3 sampleLowerCase appProps afterValueChange = [mockOptions ! 0]
   \<and> highlightedIndex afterValueChange = 3
   \<and> aria_activedescendant sampleLowerCase appProps afterValueChange = None"
  by code_simp

subsection \<open>The component's properties\<close>

text \<open>
  The optional \<open>value\<close> property is read when the component mounts: two property records
  that differ in nothing else mount with different input texts.
\<close>

lemma value_prop_sets_initial_text:
  "options cherryProps = options mockProps
   \<and> placeholder cherryProps = placeholder mockProps
   \<and> onSelectionChange cherryProps = onSelectionChange mockProps
   \<and> onInputChange cherryProps = onInputChange mockProps
   \<and> disabled cherryProps = disabled mockProps
   \<and> className cherryProps = className mockProps
   \<and> inputValue (initialState cherryProps) = js ''Cherry''
   \<and> inputValue (initialState mockProps) = []"
  by (simp add: cherryProps_def mockProps_def initialState_def)

subsection \<open>Errors and focus lookups\<close>














lemma closest_form_in_doc:
  assumes "getClosestForm doc r = Some f"
  shows "f \<in> set (preorder doc)"
proof -
  let ?fs = "filter (\<lambda>e. tagName e = ''form'' \<and> r \<in> set (map eref (preorder e))) (preorder doc)"
  from assms obtain rest where "rev ?fs = f # rest"
    by (auto simp: getClosestForm_def closest_form_def split: list.splits)
  then have "f \<in> set (rev ?fs)" by simp
  then show ?thesis by simp
qed

lemma getRoot_in_document:
  assumes "rootElement fp = None"
  shows "getRoot doc fp \<in> set (preorder doc)"
proof -
  have "doc \<in> set (preorder doc)" by (cases doc) simp
  moreover have "f \<in> set (preorder doc)" if "closest_form doc r = Some f" for r f
    using that by (intro closest_form_in_doc [where r = r]) (simp add: getClosestForm_def)
  ultimately show ?thesis
    using assms by (auto simp: getRoot_def split: option.splits)
qed






lemma findIndex_not_member: "x \<notin> set xs \<Longrightarrow> findIndex (\<lambda>el. el = x) xs = -1"
  by (induction xs) (auto simp: Let_def)

lemma getNextTabbable_not_listed:
  assumes "current \<notin> set (fst (getAllTabbables doc refs current))"
  shows "fst (getNextTabbable doc refs current) = None"
  using assms
  by (simp add: getNextTabbable_def Let_def case_prod_unfold findIndex_not_member)

lemma getPreviousTabbable_not_listed:
  assumes "current \<notin> set (fst (getAllTabbables doc refs current))"
  shows "fst (getPreviousTabbable doc refs current) = None"
  using assms
  by (simp add: getPreviousTabbable_def Let_def case_prod_unfold findIndex_not_member)




subsection \<open>The focus hook of approach 2\<close>

lemma same_form_same_scope:
  assumes "distinct (map eref (preorder doc))"
    and "map_option eref (getClosestForm doc a) = map_option eref (getClosestForm doc b)"
  shows "scope_of doc a = scope_of doc b"
proof (cases "getClosestForm doc a")
  case None
  with assms(2) have "getClosestForm doc b = None" by simp
  with None show ?thesis by (simp add: scope_of_def)
next
  case (Some f)
  with assms(2) obtain g where g: "getClosestForm doc b = Some g" "eref f = eref g"
    by (cases "getClosestForm doc b") auto
  from Some g(1) have "f \<in> set (preorder doc)" "g \<in> set (preorder doc)"
    by (auto dest: closest_form_in_doc)
  with assms(1) g(2) have "f = g"
    by (simp add: distinct_map inj_on_def)
  with Some g(1) show ?thesis by (simp add: scope_of_def)
qed


lemma isTabbable_matches: "isTabbable e \<Longrightarrow> matches e TABBABLE_SELECTOR"
  by (simp add: isTabbable_def split: if_splits)

lemma getTabbableElements_document_order:
  "getTabbableElements container = tabbables_in_document_order container"
proof -
  have "filter isTabbable (filter (\<lambda>e. matches e TABBABLE_SELECTOR) xs) = filter isTabbable xs"
    for xs
    by (induction xs) (auto dest: isTabbable_matches)
  then show ?thesis
    by (simp add: getTabbableElements_def querySelectorAll_def tabbables_in_document_order_def)
qed

lemma getAllTabbables_list:
  "fst (getAllTabbables doc refs current) =
     (if map_option eref (getClosestForm doc current) = lastFormRef refs
         \<and> lastTabbablesRef refs \<noteq> []
      then lastTabbablesRef refs
      else tabbables_in_document_order (scope_of doc current))"
  by (simp add: getAllTabbables_def Let_def scope_of_def getTabbableElements_document_order)

lemma getAllTabbables_refs:
  "snd (getAllTabbables doc refs current) =
     (if map_option eref (getClosestForm doc current) = lastFormRef refs
         \<and> lastTabbablesRef refs \<noteq> []
      then refs
      else \<lparr>lastFormRef = map_option eref (getClosestForm doc current),
            lastTabbablesRef = tabbables_in_document_order (scope_of doc current)\<rparr>)"
  by (simp add: getAllTabbables_def Let_def scope_of_def getTabbableElements_document_order)

lemma up_to_date_initial: "up_to_date doc initialRefs"
  by (simp add: up_to_date_def initialRefs_def)

lemma up_to_date_list:
  assumes "up_to_date doc refs" "e \<in> set (preorder doc)"
  shows "fst (getAllTabbables doc refs (eref e)) = tabbables_in_document_order (scope_of doc (eref e))"
proof (cases "map_option eref (getClosestForm doc (eref e)) = lastFormRef refs
               \<and> lastTabbablesRef refs \<noteq> []")
  case True
  with assms have "lastTabbablesRef refs = tabbables_in_document_order (scope_of doc (eref e))"
    unfolding up_to_date_def by blast
  with True show ?thesis by (simp add: getAllTabbables_list)
next
  case False
  show ?thesis unfolding getAllTabbables_list using False by (rule if_not_P)
qed


lemma up_to_date_preserved:
  assumes "distinct (map eref (preorder doc))" "up_to_date doc refs"
  shows "up_to_date doc (snd (getAllTabbables doc refs current))"
proof (cases "map_option eref (getClosestForm doc current) = lastFormRef refs
               \<and> lastTabbablesRef refs \<noteq> []")
  case True
  have "snd (getAllTabbables doc refs current) = refs"
    unfolding getAllTabbables_refs using True by (rule if_P)
  with assms(2) show ?thesis by simp
next
  case False
  have refs': "snd (getAllTabbables doc refs current) =
      \<lparr>lastFormRef = map_option eref (getClosestForm doc current),
       lastTabbablesRef = tabbables_in_document_order (scope_of doc current)\<rparr>"
    unfolding getAllTabbables_refs using False by (rule if_not_P)
  show ?thesis
    unfolding up_to_date_def refs'
  proof (intro ballI impI)
    fix e
    assume "e \<in> set (preorder doc)"
      and h: "map_option eref (getClosestForm doc (eref e)) =
          lastFormRef \<lparr>lastFormRef = map_option eref (getClosestForm doc current),
            lastTabbablesRef = tabbables_in_document_order (scope_of doc current)\<rparr>
        \<and> lastTabbablesRef \<lparr>lastFormRef = map_option eref (getClosestForm doc current),
            lastTabbablesRef = tabbables_in_document_order (scope_of doc current)\<rparr> \<noteq> []"
    then have "map_option eref (getClosestForm doc (eref e)) =
        map_option eref (getClosestForm doc current)" by simp
    with assms(1) have "scope_of doc (eref e) = scope_of doc current"
      by (rule same_form_same_scope)
    then show "lastTabbablesRef \<lparr>lastFormRef = map_option eref (getClosestForm doc current),
            lastTabbablesRef = tabbables_in_document_order (scope_of doc current)\<rparr>
        = tabbables_in_document_order (scope_of doc (eref e))"
      by simp
  qed
qed


lemma findIndex_first:
  assumes "x \<notin> set pre"
  shows "findIndex (\<lambda>el. el = x) (pre @ x # suf) = int (length pre)"
  using assms by (induction pre) (auto simp: Let_def)

lemma getNextTabbable_listed:
  assumes "fst (getAllTabbables doc refs current) = pre @ current # suf" "current \<notin> set pre"
  shows "fst (getNextTabbable doc refs current) = (case suf of [] \<Rightarrow> None | x # _ \<Rightarrow> Some x)"
  using assms
  by (cases suf)
     (simp_all add: getNextTabbable_def Let_def case_prod_unfold findIndex_first at_index_def
        nat_add_distrib nth_append)

lemma getPreviousTabbable_listed:
  assumes "fst (getAllTabbables doc refs current) = pre @ current # suf" "current \<notin> set pre"
  shows "fst (getPreviousTabbable doc refs current) = (if pre = [] then None else Some (last pre))"
proof (cases "pre = []")
  case True
  with assms show ?thesis
    by (simp add: getPreviousTabbable_def Let_def case_prod_unfold at_index_def)
next
  case False
  then have "nat (int (length pre) - 1) = length pre - 1" "int (length pre) - 1 \<ge> 0"
    by (cases pre; simp)+
  with False assms show ?thesis
    by (simp add: getPreviousTabbable_def Let_def case_prod_unfold findIndex_first at_index_def
        nth_append last_conv_nth)
qed

text \<open>
  C5 (amended). The hook works on the list it holds for the scope of the current element
  (its closest form, or the body): the cached list when the cache is for the same form and
  not empty, and otherwise the scope's tabbable elements in document order, computed
  then. \<^verbatim>\<open>getNextTabbable\<close> returns the element right after the current one in that list and
  null after the last, \<^verbatim>\<open>getPreviousTabbable\<close> the element right before it and null before the
  first, and both return null for an element that is not in the list. As long as the
  document does not change, the list is the document's own at every call.
\<close>

theorem tabbable_neighbours_in_hook_list:
  "(lastFormRef refs \<noteq> map_option eref (getClosestForm doc current) \<or> lastTabbablesRef refs = []
      \<longrightarrow> fst (getAllTabbables doc refs current) =
            tabbables_in_document_order (scope_of doc current))
   \<and> (lastFormRef refs = map_option eref (getClosestForm doc current) \<and> lastTabbablesRef refs \<noteq> []
      \<longrightarrow> fst (getAllTabbables doc refs current) = lastTabbablesRef refs)
   \<and> (distinct (map eref (preorder doc)) \<and> up_to_date doc refs
        \<and> current \<in> eref ` set (preorder doc) \<longrightarrow>
        fst (getAllTabbables doc refs current) = tabbables_in_document_order (scope_of doc current)
        \<and> up_to_date doc (snd (getAllTabbables doc refs current)))
   \<and> up_to_date doc initialRefs
   \<and> (current \<notin> set (fst (getAllTabbables doc refs current)) \<longrightarrow>
        fst (getNextTabbable doc refs current) = None
        \<and> fst (getPreviousTabbable doc refs current) = None)
   \<and> (\<forall>pre suf. fst (getAllTabbables doc refs current) = pre @ current # suf \<and> current \<notin> set pre
        \<longrightarrow> fst (getNextTabbable doc refs current) = (case suf of [] \<Rightarrow> None | x # _ \<Rightarrow> Some x)
          \<and> fst (getPreviousTabbable doc refs current) = (if pre = [] then None else Some (last pre)))"
proof -
  have fresh: "lastFormRef refs \<noteq> map_option eref (getClosestForm doc current) \<or> lastTabbablesRef refs = []
      \<longrightarrow> fst (getAllTabbables doc refs current) =
            tabbables_in_document_order (scope_of doc current)"
    unfolding getAllTabbables_list by auto
  have cached: "lastFormRef refs = map_option eref (getClosestForm doc current) \<and> lastTabbablesRef refs \<noteq> []
      \<longrightarrow> fst (getAllTabbables doc refs current) = lastTabbablesRef refs"
    unfolding getAllTabbables_list by auto
  have static: "distinct (map eref (preorder doc)) \<and> up_to_date doc refs
        \<and> current \<in> eref ` set (preorder doc) \<longrightarrow>
        fst (getAllTabbables doc refs current) = tabbables_in_document_order (scope_of doc current)
        \<and> up_to_date doc (snd (getAllTabbables doc refs current))"
  proof (intro impI, elim conjE)
    assume d: "distinct (map eref (preorder doc))" and u: "up_to_date doc refs"
      and c: "current \<in> eref ` set (preorder doc)"
    from c obtain e where e: "e \<in> set (preorder doc)" "current = eref e" by blast
    from up_to_date_list [OF u e(1)] e(2)
    have "fst (getAllTabbables doc refs current) = tabbables_in_document_order (scope_of doc current)"
      by simp
    with up_to_date_preserved [OF d u, of current]
    show "fst (getAllTabbables doc refs current) = tabbables_in_document_order (scope_of doc current)
        \<and> up_to_date doc (snd (getAllTabbables doc refs current))"
      by simp
  qed
  have nb: "\<forall>pre suf. fst (getAllTabbables doc refs current) = pre @ current # suf \<and> current \<notin> set pre
        \<longrightarrow> fst (getNextTabbable doc refs current) = (case suf of [] \<Rightarrow> None | x # _ \<Rightarrow> Some x)
          \<and> fst (getPreviousTabbable doc refs current) = (if pre = [] then None else Some (last pre))"
    using getNextTabbable_listed getPreviousTabbable_listed by blast
  have nl: "current \<notin> set (fst (getAllTabbables doc refs current)) \<longrightarrow>
        fst (getNextTabbable doc refs current) = None
        \<and> fst (getPreviousTabbable doc refs current) = None"
    using getNextTabbable_not_listed getPreviousTabbable_not_listed by blast
  have init: "up_to_date doc initialRefs" by (rule up_to_date_initial)
  show ?thesis
    by (intro conjI) (fact fresh cached static init nl nb)+
qed

theorem tabbable_neighbours_in_hook_list_witness:
  "fst (getAllTabbables formDoc initialRefs 5) = [2, 5, 6]
   \<and> tabbables_in_document_order (scope_of formDoc 5) = [2, 5, 6]
   \<and> fst (getNextTabbable formDoc initialRefs 5) = Some 6
   \<and> fst (getPreviousTabbable formDoc initialRefs 5) = Some 2
   \<and> fst (getNextTabbable formDoc initialRefs 6) = None
   \<and> fst (getPreviousTabbable formDoc initialRefs 2) = None
   \<and> fst (getNextTabbable formDoc initialRefs 4) = None
   \<and> fst (getAllTabbables formDocLater refsAfterFirstCall 5) = [2, 5, 6]
   \<and> up_to_date formDoc refsAfterFirstCall
   \<and> fst (getAllTabbables formDoc refsAfterFirstCall 6) = tabbables_in_document_order (scope_of formDoc 6)"
proof -
  have l: "fst (getAllTabbables formDoc initialRefs 5) = [2, 5, 6]"
    "fst (getAllTabbables formDoc initialRefs 6) = [2, 5, 6]"
    "fst (getAllTabbables formDoc initialRefs 2) = [2, 5, 6]"
    "fst (getAllTabbables formDoc initialRefs 4) = [2, 5, 6]"
    by code_simp+
  have e: "lastTabbablesRef initialRefs = []" by (simp add: initialRefs_def)
  have d5: "fst (getAllTabbables formDoc initialRefs 5) = [2] @ 5 # [6] \<and> 5 \<notin> set [2::nat]"
    using l by simp
  have d6: "fst (getAllTabbables formDoc initialRefs 6) = [2, 5] @ 6 # [] \<and> 6 \<notin> set [2, 5::nat]"
    using l by simp
  have d2: "fst (getAllTabbables formDoc initialRefs 2) = [] @ 2 # [5, 6] \<and> 2 \<notin> set ([]::nat list)"
    using l by simp
  have d4: "4 \<notin> set (fst (getAllTabbables formDoc initialRefs 4))"
    using l by simp
  from tabbable_neighbours_in_hook_list [where refs = initialRefs and doc = formDoc and current = 5] d5
  have a: "fst (getNextTabbable formDoc initialRefs 5) = (case [6] of [] \<Rightarrow> None | x # _ \<Rightarrow> Some x)
      \<and> fst (getPreviousTabbable formDoc initialRefs 5) = (if [2::nat] = [] then None else Some (last [2]))"
    by blast
  from tabbable_neighbours_in_hook_list [where refs = initialRefs and doc = formDoc and current = 5] e
  have f: "fst (getAllTabbables formDoc initialRefs 5) = tabbables_in_document_order (scope_of formDoc 5)"
    by blast
  from tabbable_neighbours_in_hook_list [of initialRefs formDoc 6] d6
  have b: "fst (getNextTabbable formDoc initialRefs 6) = (case [] of [] \<Rightarrow> None | x # _ \<Rightarrow> Some x)"
    by blast
  from tabbable_neighbours_in_hook_list [of initialRefs formDoc 2] d2
  have c: "fst (getPreviousTabbable formDoc initialRefs 2) = (if ([]::nat list) = [] then None else Some (last []))"
    by blast
  from tabbable_neighbours_in_hook_list [of initialRefs formDoc 4] d4
  have d: "fst (getNextTabbable formDoc initialRefs 4) = None"
    by blast
  have hit: "lastFormRef refsAfterFirstCall = map_option eref (getClosestForm formDocLater 5)
      \<and> lastTabbablesRef refsAfterFirstCall \<noteq> []"
    by code_simp
  have cached: "lastTabbablesRef refsAfterFirstCall = [2, 5, 6]" by code_simp
  from tabbable_neighbours_in_hook_list [of refsAfterFirstCall formDocLater 5] hit cached
  have st: "fst (getAllTabbables formDocLater refsAfterFirstCall 5) = [2, 5, 6]"
    by simp
  have dist: "distinct (map eref (preorder formDoc))" by code_simp
  have mem: "(5::nat) \<in> eref ` set (preorder formDoc)" "(6::nat) \<in> eref ` set (preorder formDoc)"
    by (simp_all add: formDoc_def)
  have r: "refsAfterFirstCall = snd (getAllTabbables formDoc initialRefs 5)"
    by (simp add: refsAfterFirstCall_def getNextTabbable_def Let_def case_prod_unfold)
  note t0 = tabbable_neighbours_in_hook_list [where refs = initialRefs and doc = formDoc and current = 5]
  from t0 have u0: "up_to_date formDoc initialRefs" by blast
  from t0 dist u0 mem(1) have u1: "up_to_date formDoc refsAfterFirstCall"
    unfolding r by blast
  from tabbable_neighbours_in_hook_list [of refsAfterFirstCall formDoc 6] dist u1 mem(2)
  have s6: "fst (getAllTabbables formDoc refsAfterFirstCall 6) = tabbables_in_document_order (scope_of formDoc 6)"
    by blast
  from l f a b c d st u1 s6 show ?thesis by simp
qed

text \<open>
  C5 as stated fails once the document changes between two calls in the same form: the
  second call answers from the list of the first.
\<close>

theorem stale_tabbables_after_document_change:
  "fst (getNextTabbable formDoc initialRefs 5) = Some 6
   \<and> refsAfterFirstCall = snd (getNextTabbable formDoc initialRefs 5)
   \<and> tabbables_in_document_order (scope_of formDocLater 5) = [2, 5, 7]
   \<and> fst (getNextTabbable formDocLater refsAfterFirstCall 5) = Some 6"
  by code_simp

end
